theory Spec2Isabelle
  imports Main
begin

section \<open>Python strings\<close>

text \<open>
  A Python \<^verbatim>\<open>str\<close> is a sequence of Unicode code points. A code point is modelled as a
  natural number and a string as a list of them, so that \<^verbatim>\<open>len\<close>, slicing and the
  whitespace tests count what Python counts. \<open>U\<close> embeds an ASCII literal.
\<close>

type_synonym codepoint = nat
type_synonym ustring = "codepoint list"

definition U :: "string \<Rightarrow> ustring" where
  "U s = map of_char s"

text \<open>
  The characters that \<^verbatim>\<open>str.strip()\<close> and \<^verbatim>\<open>str.split()\<close> (no argument) treat as
  whitespace: the code points for which \<^verbatim>\<open>str.isspace\<close> holds.
\<close>

definition isspace :: "codepoint \<Rightarrow> bool" where
  "isspace c \<longleftrightarrow>
     (0x09 \<le> c \<and> c \<le> 0x0D) \<or> (0x1C \<le> c \<and> c \<le> 0x20) \<or> c = 0x85 \<or> c = 0xA0 \<or>
     c = 0x1680 \<or> (0x2000 \<le> c \<and> c \<le> 0x200A) \<or> c = 0x2028 \<or> c = 0x2029 \<or>
     c = 0x202F \<or> c = 0x205F \<or> c = 0x3000"

text \<open>\<^verbatim>\<open>s.strip()\<close>: leading and trailing whitespace removed.\<close>

definition strip :: "ustring \<Rightarrow> ustring" where
  "strip s = rev (dropWhile isspace (rev (dropWhile isspace s)))"

text \<open>
  \<^verbatim>\<open>s.split()\<close>: the maximal runs of non-whitespace characters, in order. The scan keeps
  the word read so far in \<open>w\<close>.
\<close>

fun split_from :: "ustring \<Rightarrow> ustring \<Rightarrow> ustring list" where
  "split_from w [] = (if w = [] then [] else [w])"
| "split_from w (c # cs) =
     (if isspace c then (if w = [] then split_from [] cs else w # split_from [] cs)
      else split_from (w @ [c]) cs)"

definition split :: "ustring \<Rightarrow> ustring list" where
  "split s = split_from [] s"

text \<open>\<^verbatim>\<open>sep.join(ws)\<close>.\<close>

fun join :: "ustring \<Rightarrow> ustring list \<Rightarrow> ustring" where
  "join sep [] = []"
| "join sep [w] = w"
| "join sep (w # ws) = w @ sep @ join sep ws"

text \<open>\<^verbatim>\<open>s.replace(c, '')\<close> and \<^verbatim>\<open>s.replace(c, d)\<close> for single characters \<open>c\<close>, \<open>d\<close>.\<close>

definition remove_char :: "codepoint \<Rightarrow> ustring \<Rightarrow> ustring" where
  "remove_char c s = filter (\<lambda>x. x \<noteq> c) s"

definition replace_char :: "codepoint \<Rightarrow> codepoint \<Rightarrow> ustring \<Rightarrow> ustring" where
  "replace_char c d s = map (\<lambda>x. if x = c then d else x) s"

text \<open>\<^verbatim>\<open>str(n)\<close> for a non-negative \<^verbatim>\<open>int\<close>: its decimal digits.\<close>

fun str :: "nat \<Rightarrow> ustring" where
  "str n = (if n < 10 then [0x30 + n] else str (n div 10) @ [0x30 + n mod 10])"

declare str.simps [simp del]

section \<open>The filename sanitizers\<close>

text \<open>
  \<^verbatim>\<open>ImageFileRenamer.sanitize_filename\<close>:
  \<^verbatim>\<open>s = re.sub(r'[\\/:*?"<>|]', '', filename); s = s.replace(' ', '_'); return s.strip()\<close>.
  The character class holds backslash, slash, colon, star, question mark, double quote,
  less-than, greater-than and the vertical bar.
\<close>

definition forbidden :: "codepoint list" where
  "forbidden = [0x5C, 0x2F, 0x3A, 0x2A, 0x3F, 0x22, 0x3C, 0x3E, 0x7C]"

definition sanitize_filename :: "ustring \<Rightarrow> ustring" where
  "sanitize_filename filename =
     (let s = filter (\<lambda>c. c \<notin> set forbidden) filename;
          s = replace_char 0x20 0x5F s
      in strip s)"

text \<open>
  \<^verbatim>\<open>PDFRenamer._sanitize_filename\<close>: every character of
  \<^verbatim>\<open>invalid_chars = '<>:"/\\|?*\n\r\t'\<close> is removed in turn, then
  \<^verbatim>\<open>'_'.join(filename.split()).strip()\<close>.
\<close>

definition invalid_chars :: "codepoint list" where
  "invalid_chars = [0x3C, 0x3E, 0x3A, 0x22, 0x2F, 0x5C, 0x7C, 0x3F, 0x2A, 0x0A, 0x0D, 0x09]"

definition pdf_sanitize_filename :: "ustring \<Rightarrow> ustring" where
  "pdf_sanitize_filename filename =
     (let filename = foldl (\<lambda>f c. remove_char c f) filename invalid_chars
      in strip (join [0x5F] (split filename)))"

section \<open>Paths and the file system\<close>

text \<open>
  The scripts use \<^verbatim>\<open>os.path\<close> on a POSIX system. \<^verbatim>\<open>s.rfind(c)\<close> is the index of the
  last occurrence of \<open>c\<close>, or \<open>-1\<close>.
\<close>

definition rfind :: "codepoint \<Rightarrow> ustring \<Rightarrow> int" where
  "rfind c s =
     (if c \<in> set s then int (length s) - 1 - int (length (takeWhile (\<lambda>x. x \<noteq> c) (rev s)))
      else - 1)"

definition rstrip_char :: "codepoint \<Rightarrow> ustring \<Rightarrow> ustring" where
  "rstrip_char c s = rev (dropWhile (\<lambda>x. x = c) (rev s))"

text \<open>
  \<^verbatim>\<open>os.path.split\<close>: the head is everything up to the last slash, with trailing slashes
  removed unless it consists of slashes only; the tail is what follows the last slash.
\<close>

definition os_path_split :: "ustring \<Rightarrow> ustring \<times> ustring" where
  "os_path_split p =
     (let i = nat (rfind 0x2F p + 1);
          head = take i p;
          tail = drop i p;
          head = (if head \<noteq> [] \<and> head \<noteq> replicate (length head) 0x2F
                  then rstrip_char 0x2F head else head)
      in (head, tail))"

definition os_path_basename :: "ustring \<Rightarrow> ustring" where
  "os_path_basename p = snd (os_path_split p)"

definition os_path_dirname :: "ustring \<Rightarrow> ustring" where
  "os_path_dirname p = fst (os_path_split p)"

text \<open>
  \<^verbatim>\<open>os.path.splitext\<close>: the extension starts at the last dot, provided that dot comes
  after the last slash and is preceded in its component by a character other than a dot.
\<close>

definition os_path_splitext :: "ustring \<Rightarrow> ustring \<times> ustring" where
  "os_path_splitext p =
     (let sepIndex = rfind 0x2F p;
          dotIndex = rfind 0x2E p
      in if dotIndex > sepIndex \<and>
            list_ex (\<lambda>c. c \<noteq> 0x2E) (take (nat (dotIndex - (sepIndex + 1))) (drop (nat (sepIndex + 1)) p))
         then (take (nat dotIndex) p, drop (nat dotIndex) p)
         else (p, []))"

text \<open>\<^verbatim>\<open>os.path.join(a, b)\<close> with two arguments.\<close>

definition os_path_join :: "ustring \<Rightarrow> ustring \<Rightarrow> ustring" where
  "os_path_join a b =
     (if b \<noteq> [] \<and> hd b = 0x2F then b
      else if a = [] \<or> last a = 0x2F then a @ b
      else a @ [0x2F] @ b)"

text \<open>
  The file system is the finite collection of the paths at which \<^verbatim>\<open>os.path.exists\<close>
  answers \<^verbatim>\<open>True\<close>: it is all the scripts look at. A file that can be reached under two
  spellings of its path (a doubled slash) is listed under both.
  \<^verbatim>\<open>os.rename\<close> fails with \<^verbatim>\<open>OSError\<close> when the source is missing or the operating
  system refuses (\<open>permitted\<close> is its answer); \<^verbatim>\<open>os.remove\<close> deletes the entry.
\<close>

type_synonym filesystem = "ustring list"

datatype exn = SystemExit nat | OSError

definition os_path_exists :: "filesystem \<Rightarrow> ustring \<Rightarrow> bool" where
  "os_path_exists fs p \<longleftrightarrow> p \<in> set fs"

definition os_rename :: "filesystem \<Rightarrow> bool \<Rightarrow> ustring \<Rightarrow> ustring \<Rightarrow> exn + filesystem" where
  "os_rename fs permitted src dst =
     (if permitted \<and> os_path_exists fs src then Inr (List.insert dst (removeAll src fs))
      else Inl OSError)"

definition os_remove :: "filesystem \<Rightarrow> ustring \<Rightarrow> filesystem" where
  "os_remove fs p = removeAll p fs"



section \<open>Collision-safe naming\<close>

text \<open>
  Both renamers run the same loop. In \<^verbatim>\<open>_process_single_image\<close>:
  \<^verbatim>\<open>
  counter = 1
  while os.path.exists(new_filepath):
      new_filename = f"{sanitized_description}_{counter}{file_extension}"
      new_filepath = os.path.join(os.path.dirname(original_filepath), new_filename)
      counter += 1
  \<close>
  and in \<^verbatim>\<open>process_file\<close> the same with \<^verbatim>\<open>os.path.join(original_directory,
  final_new_filename)\<close> computed in the loop condition. The loop state is the current
  filename and the counter; the path tested is always the join of the directory and the
  current filename.
\<close>

function unique_filename ::
  "filesystem \<Rightarrow> ustring \<Rightarrow> ustring \<Rightarrow> ustring \<Rightarrow> ustring \<Rightarrow> nat \<Rightarrow> ustring" where
  "unique_filename fs dir base ext new_filename counter =
     (if os_path_exists fs (os_path_join dir new_filename)
      then unique_filename fs dir base ext (base @ [0x5F] @ str counter @ ext) (counter + 1)
      else new_filename)"
  by pat_completeness auto

section \<open>The external collaborators\<close>

text \<open>
  What the remote model and the operating system do for one processed file is not
  computed by the scripts; it is a parameter of the model. \<open>reply\<close> is the text of
  \<^verbatim>\<open>generate_content(...)\<close>, or \<open>None\<close> when the call raises; \<open>rename_permitted\<close> says
  whether the operating system lets \<^verbatim>\<open>os.rename\<close> through.
\<close>

record world =
  reply :: "ustring option"
  rename_permitted :: bool

text \<open>
  \<^verbatim>\<open>Gemini2Vision.load_image\<close> and \<^verbatim>\<open>Gemini2Vision.get_response\<close>: both print a
  diagnostic and call \<^verbatim>\<open>sys.exit(1)\<close> on failure, which raises \<^verbatim>\<open>SystemExit\<close>.
\<close>

definition load_image :: "bool \<Rightarrow> exn + unit" where
  "load_image readable = (if readable then Inr () else Inl (SystemExit 1))"

definition get_response :: "ustring option \<Rightarrow> exn + ustring" where
  "get_response r = (case r of Some text \<Rightarrow> Inr text | None \<Rightarrow> Inl (SystemExit 1))"

text \<open>
  \<^verbatim>\<open>main\<close> of the vision query: load the image, ask the model, print the text. The
  result is the printed text, or the exception that ends the process.
\<close>

definition vision_main :: "bool \<Rightarrow> ustring option \<Rightarrow> exn + ustring" where
  "vision_main readable r =
     (case load_image readable of Inl e \<Rightarrow> Inl e | Inr img \<Rightarrow> get_response r)"

section \<open>The image renamer\<close>

record image_world = world +
  resize_ok :: bool
  load_ok :: bool

definition supported_extensions :: "ustring list" where
  "supported_extensions =
     [U ''.png'', U ''.jpg'', U ''.jpeg'', U ''.gif'', U ''.bmp'', U ''.tiff'']"

text \<open>
  \<^verbatim>\<open>filename.lower().endswith(suffixes)\<close>. \<open>lower\<close> folds the ASCII capitals only; no
  other character lowers to a letter of the suffixes tested here (\<open>supported_extensions\<close>
  and \<^verbatim>\<open>.pdf\<close>), so the test is the one Python makes.
\<close>

definition lower :: "ustring \<Rightarrow> ustring" where
  "lower s = map (\<lambda>c. if 0x41 \<le> c \<and> c \<le> 0x5A then c + 0x20 else c) s"

definition endswith :: "ustring \<Rightarrow> ustring \<Rightarrow> bool" where
  "endswith s suffix \<longleftrightarrow>
     length suffix \<le> length s \<and> drop (length s - length suffix) s = suffix"

text \<open>
  \<^verbatim>\<open>create_resized_image\<close>: on success the copy \<^verbatim>\<open><basename>.tmp\<close> exists beside the
  original and its path is returned; any exception gives \<open>None\<close>.
\<close>

definition create_resized_image ::
  "filesystem \<Rightarrow> image_world \<Rightarrow> ustring \<Rightarrow> ustring option \<times> filesystem" where
  "create_resized_image fs w image_path =
     (if os_path_exists fs image_path \<and> resize_ok w
      then let temp_filename = os_path_basename image_path @ U ''.tmp'';
               temp_path = os_path_join (os_path_dirname image_path) temp_filename
           in (Some temp_path, List.insert temp_path fs)
      else (None, fs))"

datatype image_event = NotSupported | ResizeError | Renamed ustring

text \<open>
  The \<^verbatim>\<open>try\<close> block of \<^verbatim>\<open>_process_single_image\<close>: how control leaves it (an event on a
  normal completion or \<^verbatim>\<open>return\<close>, or the exception raised), the file system then, and
  the value of \<^verbatim>\<open>resized_filepath\<close> then.
\<close>

definition try_block ::
  "filesystem \<Rightarrow> image_world \<Rightarrow> ustring \<Rightarrow> (exn + image_event) \<times> filesystem \<times> ustring option" where
  "try_block fs w original_filepath =
     (let filename = os_path_basename original_filepath
      in if \<not> list_ex (endswith (lower filename)) supported_extensions
         then (Inr NotSupported, fs, None)
         else
           case create_resized_image fs w original_filepath of
             (None, fs) \<Rightarrow> (Inr ResizeError, fs, None)
           | (Some resized_filepath, fs) \<Rightarrow>
               (case load_image (load_ok w) of
                  Inl e \<Rightarrow> (Inl e, fs, Some resized_filepath)
                | Inr img_data \<Rightarrow>
                    (case get_response (reply w) of
                       Inl e \<Rightarrow> (Inl e, fs, Some resized_filepath)
                     | Inr description \<Rightarrow>
                         (let file_extension = snd (os_path_splitext filename);
                              sanitized_description = sanitize_filename description;
                              directory = os_path_dirname original_filepath;
                              new_filename = unique_filename fs directory sanitized_description
                                file_extension (sanitized_description @ file_extension) 1;
                              new_filepath = os_path_join directory new_filename
                          in case os_rename fs (rename_permitted w) original_filepath new_filepath of
                               Inl e \<Rightarrow> (Inl e, fs, Some resized_filepath)
                             | Inr fs \<Rightarrow> (Inr (Renamed new_filename), fs, Some resized_filepath)))))"

datatype image_result = Returned image_event | CouldNotProcess | Exits nat

text \<open>
  \<^verbatim>\<open>_process_single_image\<close>: \<^verbatim>\<open>except Exception\<close> catches the \<^verbatim>\<open>OSError\<close>;
  \<^verbatim>\<open>SystemExit\<close> is no \<^verbatim>\<open>Exception\<close> and goes on to the caller; the \<^verbatim>\<open>finally\<close>
  clause runs in every case.
\<close>

definition process_single_image ::
  "filesystem \<Rightarrow> image_world \<Rightarrow> ustring \<Rightarrow> image_result \<times> filesystem" where
  "process_single_image fs w original_filepath =
     (let (outcome, fs, resized_filepath) = try_block fs w original_filepath;
          result = (case outcome of
                      Inr event \<Rightarrow> Returned event
                    | Inl OSError \<Rightarrow> CouldNotProcess
                    | Inl (SystemExit code) \<Rightarrow> Exits code);
          fs = (case resized_filepath of
                  Some t \<Rightarrow> if t \<noteq> [] \<and> os_path_exists fs t then os_remove fs t else fs
                | None \<Rightarrow> fs)
      in (result, fs))"

text \<open>
  The loop of \<^verbatim>\<open>rename_input\<close> over the files that \<^verbatim>\<open>os.walk\<close> yields, each with what
  the collaborators do for it. Neither \<^verbatim>\<open>rename_input\<close> nor \<^verbatim>\<open>main\<close> catches
  \<^verbatim>\<open>SystemExit\<close>, so it ends the loop and the process.
\<close>

fun rename_input ::
  "filesystem \<Rightarrow> (ustring \<times> image_world) list \<Rightarrow> image_result list \<times> filesystem" where
  "rename_input fs [] = ([], fs)"
| "rename_input fs ((filepath, w) # files) =
     (let (r, fs) = process_single_image fs w filepath
      in case r of
           Exits code \<Rightarrow> ([r], fs)
         | _ \<Rightarrow> (let (rs, fs) = rename_input fs files in (r # rs, fs)))"

section \<open>The PDF renamer\<close>

text \<open>
  What \<^verbatim>\<open>PyPDF2.PdfReader\<close> finds in the file: the metadata dictionary (or none) and
  the pages, each with what \<^verbatim>\<open>extract_text()\<close> does on it (a string, \<^verbatim>\<open>None\<close>, or an
  exception). \<open>document\<close> is \<open>None\<close> when opening or parsing the file raises.
\<close>

datatype page = Text "ustring option" | Raises

record pdf_document =
  metadata :: "(ustring \<rightharpoonup> ustring) option"
  pages :: "page list"

record pdf_world = world +
  document :: "pdf_document option"

text \<open>The state of a run: the file system and the prompts sent to the model so far.\<close>

record state =
  files :: filesystem
  prompts :: "ustring list"

definition get_pdf_metadata_title :: "pdf_world \<Rightarrow> ustring option" where
  "get_pdf_metadata_title w =
     (case document w of
        None \<Rightarrow> None
      | Some reader \<Rightarrow>
          (case metadata reader of
             None \<Rightarrow> None
           | Some m \<Rightarrow> m (U ''/Title'')))"

text \<open>
  The loop of \<^verbatim>\<open>_get_first_page_text\<close>:
  \<^verbatim>\<open>text_content += reader.pages[i].extract_text() or ""\<close>; \<open>None\<close> when a page raises.
\<close>

fun read_pages :: "ustring \<Rightarrow> page list \<Rightarrow> ustring option" where
  "read_pages text_content [] = Some text_content"
| "read_pages text_content (Raises # ps) = None"
| "read_pages text_content (Text t # ps) =
     read_pages (text_content @ (case t of Some s \<Rightarrow> s | None \<Rightarrow> [])) ps"

definition get_first_page_text :: "pdf_world \<Rightarrow> nat \<Rightarrow> ustring" where
  "get_first_page_text w num_pages =
     (case document w of
        None \<Rightarrow> []
      | Some reader \<Rightarrow>
          (case read_pages [] (take (min num_pages (length (pages reader))) (pages reader)) of
             None \<Rightarrow> []
           | Some text_content \<Rightarrow> text_content))"

definition prompt_header :: ustring where
  "prompt_header =
     U ''Analyze the following text from a document and extract the main title of the paper. '' @
     U ''Provide only the title, and do not include any other text, explanations, or formatting.'' @
     [0x0A, 0x0A] @ U ''Document Content:'' @ [0x0A]"

text \<open>
  \<^verbatim>\<open>_get_title_from_gemini\<close>, with the prompts sent so far: the title (or \<open>None\<close>) and
  the prompts sent afterwards.
\<close>

definition get_title_from_gemini ::
  "ustring list \<Rightarrow> pdf_world \<Rightarrow> ustring \<Rightarrow> ustring option \<times> ustring list" where
  "get_title_from_gemini sent w text_content =
     (if strip text_content = [] then (None, sent)
      else
        let prompt_text = prompt_header @ take 2000 text_content
        in case reply w of
             Some text \<Rightarrow> (Some (strip text), sent @ [prompt_text])
           | None \<Rightarrow> (None, sent @ [prompt_text]))"

datatype pdf_result =
  FileNotFound | NoText | NoTitle | EmptySanitizedTitle | RenamedTo ustring | RenameError |
  AlreadyNamed

text \<open>
  The second half of \<^verbatim>\<open>process_file\<close>, from \<^verbatim>\<open>if new_title:\<close> on. A title is falsy
  when it is \<^verbatim>\<open>None\<close> or empty.
\<close>

definition rename_to_title ::
  "state \<Rightarrow> pdf_world \<Rightarrow> ustring \<Rightarrow> ustring \<Rightarrow> ustring \<Rightarrow> ustring option \<Rightarrow> pdf_result \<times> state" where
  "rename_to_title s w pdf_path original_directory extension new_title =
     (case new_title of
        None \<Rightarrow> (NoTitle, s)
      | Some title \<Rightarrow>
          if title = [] then (NoTitle, s)
          else
            let sanitized_title = pdf_sanitize_filename title
            in if sanitized_title = [] then (EmptySanitizedTitle, s)
               else
                 let final_new_filename = unique_filename (files s) original_directory
                       sanitized_title extension (sanitized_title @ extension) 1;
                     new_pdf_path = os_path_join original_directory final_new_filename
                 in if pdf_path \<noteq> new_pdf_path
                    then (case os_rename (files s) (rename_permitted w) pdf_path new_pdf_path of
                            Inr fs \<Rightarrow> (RenamedTo final_new_filename, s\<lparr>files := fs\<rparr>)
                          | Inl e \<Rightarrow> (RenameError, s))
                    else (AlreadyNamed, s))"

definition process_file :: "state \<Rightarrow> pdf_world \<Rightarrow> ustring \<Rightarrow> pdf_result \<times> state" where
  "process_file s w pdf_path =
     (if \<not> os_path_exists (files s) pdf_path then (FileNotFound, s)
      else
        let (original_directory, original_filename) = os_path_split pdf_path;
            (base_name, extension) = os_path_splitext original_filename;
            new_title = get_pdf_metadata_title w
        in if new_title = None \<or> new_title = Some []
           then
             let text_content = get_first_page_text w 2
             in if text_content \<noteq> []
                then
                  let (new_title, sent) = get_title_from_gemini (prompts s) w text_content
                  in rename_to_title (s\<lparr>prompts := sent\<rparr>) w pdf_path original_directory
                       extension new_title
                else (NoText, s)
           else rename_to_title s w pdf_path original_directory extension new_title)"

text \<open>
  The loop of \<^verbatim>\<open>run\<close> over the names that \<^verbatim>\<open>os.listdir(input_path)\<close> yields, each with
  what the collaborators do for it.
\<close>

fun run :: "state \<Rightarrow> ustring \<Rightarrow> (ustring \<times> pdf_world) list \<Rightarrow> pdf_result list \<times> state" where
  "run s input_path [] = ([], s)"
| "run s input_path ((filename, w) # rest) =
     (if endswith (lower filename) (U ''.pdf'')
      then
        let full_path = os_path_join input_path filename;
            (r, s) = process_file s w full_path;
            (rs, s) = run s input_path rest
        in (r # rs, s)
      else run s input_path rest)"

section \<open>Termination of the naming loop\<close>

text \<open>
  The counters from \<open>counter\<close> on whose candidate name exists. The candidates are
  pairwise different and the file system is finite, so there are finitely many, and each
  turn of the loop leaves one behind.
\<close>

lemma str_nonempty: "str n \<noteq> []"
  by (subst str.simps) simp

lemma str_inj: "str n = str m \<Longrightarrow> n = m"
proof (induction n arbitrary: m rule: str.induct)
  case (1 n)
  show ?case
  proof (cases "n < 10")
    case True
    show ?thesis
    proof (cases "m < 10")
      case True
      with \<open>n < 10\<close> "1.prems" show ?thesis by (simp add: str.simps [of n] str.simps [of m])
    next
      case False
      with \<open>n < 10\<close> "1.prems" str_nonempty [of "m div 10"] show ?thesis
        by (simp add: str.simps [of n] str.simps [of m])
    qed
  next
    case False
    show ?thesis
    proof (cases "m < 10")
      case True
      with False "1.prems" str_nonempty [of "n div 10"] show ?thesis
        by (simp add: str.simps [of n] str.simps [of m])
    next
      case m: False
      with False "1.prems" have "str (n div 10) = str (m div 10)" and "n mod 10 = m mod 10"
        by (simp_all add: str.simps [of n] str.simps [of m])
      with "1.IH" [OF False] have "n div 10 = m div 10" by blast
      with \<open>n mod 10 = m mod 10\<close> show ?thesis by (metis div_mult_mod_eq)
    qed
  qed
qed

lemma candidate_inj:
  "os_path_join dir (base @ [0x5F] @ str j @ ext) = os_path_join dir (base @ [0x5F] @ str k @ ext)
     \<Longrightarrow> j = k"
proof -
  assume a: "os_path_join dir (base @ [0x5F] @ str j @ ext) = os_path_join dir (base @ [0x5F] @ str k @ ext)"
  have hd: "hd (base @ [0x5F] @ str j @ ext) = hd (base @ [0x5F] @ str k @ ext)"
    by (cases base) simp_all
  from a hd have "base @ [0x5F] @ str j @ ext = base @ [0x5F] @ str k @ ext"
    by (simp add: os_path_join_def split: if_splits)
  then have "str j = str k" by simp
  then show ?thesis by (rule str_inj)
qed

definition pending :: "filesystem \<Rightarrow> ustring \<Rightarrow> ustring \<Rightarrow> ustring \<Rightarrow> nat \<Rightarrow> nat set" where
  "pending fs dir base ext counter =
     {k. counter \<le> k \<and> os_path_exists fs (os_path_join dir (base @ [0x5F] @ str k @ ext))}"

lemma finite_pending: "finite (pending fs dir base ext counter)"
proof -
  let ?f = "\<lambda>k. os_path_join dir (base @ [0x5F] @ str k @ ext)"
  have "inj ?f" by (rule injI) (rule candidate_inj)
  then have "finite (?f -` set fs)" by (intro finite_vimageI) simp_all
  moreover have "pending fs dir base ext counter \<subseteq> ?f -` set fs"
    by (auto simp: pending_def os_path_exists_def)
  ultimately show ?thesis by (rule rev_finite_subset)
qed

lemma pending_step:
  "card (pending fs dir base ext (counter + 1)) +
     (if os_path_exists fs (os_path_join dir (base @ [0x5F] @ str counter @ ext)) then 1 else 0)
   = card (pending fs dir base ext counter)"
proof (cases "os_path_exists fs (os_path_join dir (base @ [0x5F] @ str counter @ ext))")
  case True
  have "pending fs dir base ext counter = insert counter (pending fs dir base ext (counter + 1))"
    using True by (auto simp: pending_def le_Suc_eq Suc_le_eq)
  moreover have "counter \<notin> pending fs dir base ext (counter + 1)"
    by (simp add: pending_def)
  ultimately show ?thesis using True finite_pending by simp
next
  case False
  have "pending fs dir base ext counter = pending fs dir base ext (counter + 1)"
    using False by (auto simp: pending_def Suc_le_eq intro: le_neq_implies_less)
  then show ?thesis using False by simp
qed

termination unique_filename
proof (relation "measure (\<lambda>(fs, dir, base, ext, new_filename, counter).
          card (pending fs dir base ext counter) +
          (if os_path_exists fs (os_path_join dir new_filename) then 1 else 0))")
  show "wf (measure (\<lambda>(fs, dir, base, ext, new_filename, counter).
          card (pending fs dir base ext counter) +
          (if os_path_exists fs (os_path_join dir new_filename) then 1 else 0)))"
    by simp
next
  fix fs dir base ext new_filename counter
  assume "os_path_exists fs (os_path_join dir new_filename)"
  then show "((fs, dir, base, ext, base @ [0x5F] @ str counter @ ext, counter + 1),
              (fs, dir, base, ext, new_filename, counter))
    \<in> measure (\<lambda>(fs, dir, base, ext, new_filename, counter).
          card (pending fs dir base ext counter) +
          (if os_path_exists fs (os_path_join dir new_filename) then 1 else 0))"
    using pending_step [of fs dir base ext counter] by simp
qed

declare unique_filename.simps [simp del]

section \<open>Properties of the string operations\<close>

lemma dropWhile_hd_id: "xs \<noteq> [] \<Longrightarrow> \<not> P (hd xs) \<Longrightarrow> dropWhile P xs = xs"
  by (cases xs) auto

lemma last_dropWhile: "dropWhile P xs \<noteq> [] \<Longrightarrow> last (dropWhile P xs) = last xs"
  by (induction xs) (auto split: if_splits)

lemma set_strip: "set (strip s) \<subseteq> set s"
  by (auto simp: strip_def dest!: set_dropWhileD)

lemma strip_id:
  assumes "s = [] \<or> (\<not> isspace (hd s) \<and> \<not> isspace (last s))"
  shows "strip s = s"
proof (cases "s = []")
  case True
  then show ?thesis by (simp add: strip_def)
next
  case False
  with assms have h: "\<not> isspace (hd s)" and l: "\<not> isspace (last s)" by auto
  have "dropWhile isspace s = s" using False h by (rule dropWhile_hd_id)
  moreover have "dropWhile isspace (rev s) = rev s"
    using False l by (intro dropWhile_hd_id) (simp_all add: hd_rev)
  ultimately show ?thesis by (simp add: strip_def)
qed

lemma strip_ends:
  assumes "strip s \<noteq> []"
  shows "\<not> isspace (hd (strip s))" and "\<not> isspace (last (strip s))"
proof -
  define t where "t = dropWhile isspace s"
  define r where "r = dropWhile isspace (rev t)"
  have s: "strip s = rev r" by (simp add: strip_def t_def r_def)
  with assms have r: "r \<noteq> []" by simp
  then have t: "t \<noteq> []" by (auto simp: r_def)
  have "last r = last (rev t)" using r unfolding r_def by (rule last_dropWhile)
  then have "hd (strip s) = hd t" using r t by (simp add: s hd_rev last_rev)
  moreover have "\<not> isspace (hd t)" using t unfolding t_def by (rule hd_dropWhile)
  ultimately show "\<not> isspace (hd (strip s))" by simp
  have "\<not> isspace (hd r)" using r unfolding r_def by (rule hd_dropWhile)
  then show "\<not> isspace (last (strip s))" using r by (simp add: s last_rev)
qed

lemma strip_strip: "strip (strip s) = strip s"
  using strip_ends [of s] by (intro strip_id) blast

lemma underscore_not_space: "\<not> isspace 0x5F"
  by (simp add: isspace_def)

lemma space_isspace: "isspace 0x20"
  by (simp add: isspace_def)

lemma set_replace_char: "c \<noteq> d \<Longrightarrow> c \<notin> set (replace_char c d s)"
  by (auto simp: replace_char_def)

lemma replace_char_id: "c \<notin> set s \<Longrightarrow> replace_char c d s = s"
  by (induction s) (auto simp: replace_char_def)

lemma sanitize_no_forbidden: "set (sanitize_filename s) \<inter> set forbidden = {}"
proof -
  have "set (sanitize_filename s) \<subseteq> set (replace_char 0x20 0x5F (filter (\<lambda>c. c \<notin> set forbidden) s))"
    by (simp add: sanitize_filename_def set_strip)
  also have "\<dots> \<subseteq> insert 0x5F (set s - set forbidden)"
    by (auto simp: replace_char_def)
  finally show ?thesis by (auto simp: forbidden_def)
qed

lemma sanitize_no_space: "0x20 \<notin> set (sanitize_filename s)"
proof -
  have "set (sanitize_filename s) \<subseteq> set (replace_char 0x20 0x5F (filter (\<lambda>c. c \<notin> set forbidden) s))"
    by (simp add: sanitize_filename_def set_strip)
  moreover have "0x20 \<notin> set (replace_char 0x20 0x5F (filter (\<lambda>c. c \<notin> set forbidden) s))"
    by (rule set_replace_char) simp
  ultimately show ?thesis by blast
qed

lemma sanitize_stripped: "strip (sanitize_filename s) = sanitize_filename s"
  by (simp add: sanitize_filename_def strip_strip)

lemma sanitize_idem: "sanitize_filename (sanitize_filename s) = sanitize_filename s"
proof -
  define t where "t = sanitize_filename s"
  have "filter (\<lambda>c. c \<notin> set forbidden) t = t"
    using sanitize_no_forbidden [of s] by (auto simp: t_def filter_id_conv)
  moreover have "replace_char 0x20 0x5F t = t"
    using sanitize_no_space [of s] by (simp add: t_def replace_char_id)
  moreover have "strip t = t" by (simp add: t_def sanitize_stripped)
  ultimately have "sanitize_filename t = t" by (simp add: sanitize_filename_def)
  then show ?thesis by (simp add: t_def)
qed

lemma foldl_remove_char: "foldl (\<lambda>f c. remove_char c f) s cs = filter (\<lambda>x. x \<notin> set cs) s"
proof (induction cs arbitrary: s)
  case Nil
  then show ?case by simp
next
  case (Cons c cs)
  then show ?case by (simp add: remove_char_def conj_commute)
qed

lemma split_from_nonempty: "[] \<notin> set (split_from w s)"
  by (induction s arbitrary: w) auto

lemma split_from_subset: "v \<in> set (split_from w s) \<Longrightarrow> set v \<subseteq> set w \<union> set s"
proof (induction s arbitrary: w)
  case Nil
  then show ?case by (simp split: if_splits)
next
  case (Cons c cs)
  show ?case
  proof (cases "isspace c")
    case True
    with Cons.prems have "v = w \<or> v \<in> set (split_from [] cs)"
      by (auto split: if_splits)
    then show ?thesis using Cons.IH [of "[]"] by auto
  next
    case False
    with Cons.prems have "v \<in> set (split_from (w @ [c]) cs)" by simp
    then show ?thesis using Cons.IH [of "w @ [c]"] by auto
  qed
qed

lemma split_from_no_ws:
  "\<forall>c \<in> set w. \<not> isspace c \<Longrightarrow> v \<in> set (split_from w s) \<Longrightarrow> \<forall>c \<in> set v. \<not> isspace c"
proof (induction s arbitrary: w)
  case Nil
  then show ?case by (simp split: if_splits)
next
  case (Cons c cs)
  show ?case
  proof (cases "isspace c")
    case True
    with Cons.prems have "v = w \<or> v \<in> set (split_from [] cs)"
      by (auto split: if_splits)
    then show ?thesis using Cons.IH [of "[]"] Cons.prems(1) by auto
  next
    case False
    with Cons.prems have "v \<in> set (split_from (w @ [c]) cs)" by simp
    moreover have "\<forall>x \<in> set (w @ [c]). \<not> isspace x" using False Cons.prems(1) by simp
    ultimately show ?thesis using Cons.IH [of "w @ [c]"] by blast
  qed
qed

lemma split_from_words:
  assumes "\<forall>c \<in> set w. \<not> isspace c" and "v \<in> set (split_from w s)"
  shows "v \<noteq> [] \<and> (\<forall>c \<in> set v. \<not> isspace c) \<and> set v \<subseteq> set w \<union> set s"
  using assms split_from_nonempty [of w s] split_from_subset [of v w s] split_from_no_ws [of w v s]
  by blast

lemma split_words:
  "v \<in> set (split s) \<Longrightarrow> v \<noteq> [] \<and> (\<forall>c \<in> set v. \<not> isspace c) \<and> set v \<subseteq> set s"
  using split_from_words [of "[]" v s] by (simp add: split_def)

lemma set_join: "set (join sep ws) \<subseteq> set sep \<union> \<Union> (set ` set ws)"
  by (induction sep ws rule: join.induct) auto

lemma split_from_no_space:
  "\<forall>c \<in> set s. \<not> isspace c \<Longrightarrow> split_from w s = (if w @ s = [] then [] else [w @ s])"
  by (induction s arbitrary: w) auto

lemma split_no_space:
  "\<forall>c \<in> set s. \<not> isspace c \<Longrightarrow> split s = (if s = [] then [] else [s])"
  using split_from_no_space [of s "[]"] by (simp add: split_def)

lemma join_split_no_space: "\<forall>c \<in> set (join [0x5F] (split s)). \<not> isspace c"
proof
  fix c assume "c \<in> set (join [0x5F] (split s))"
  then have "c = 0x5F \<or> (\<exists>v \<in> set (split s). c \<in> set v)"
    using set_join [of "[0x5F]" "split s"] by auto
  then show "\<not> isspace c"
    using split_words underscore_not_space by metis
qed

lemma strip_no_space: "\<forall>c \<in> set s. \<not> isspace c \<Longrightarrow> strip s = s"
  by (rule strip_id) (cases s, auto)

lemma pdf_sanitize_eq:
  "pdf_sanitize_filename s = join [0x5F] (split (filter (\<lambda>x. x \<notin> set invalid_chars) s))"
  by (simp add: pdf_sanitize_filename_def foldl_remove_char strip_no_space join_split_no_space)

lemma pdf_sanitize_no_whitespace: "\<forall>c \<in> set (pdf_sanitize_filename s). \<not> isspace c"
  unfolding pdf_sanitize_eq by (rule join_split_no_space)

lemma pdf_sanitize_no_invalid: "set (pdf_sanitize_filename s) \<inter> set invalid_chars = {}"
proof -
  have "set (pdf_sanitize_filename s) \<subseteq> insert 0x5F (set (filter (\<lambda>x. x \<notin> set invalid_chars) s))"
    unfolding pdf_sanitize_eq using set_join [of "[0x5F]"] split_words by fastforce
  then show ?thesis by (auto simp: invalid_chars_def)
qed

lemma pdf_sanitize_idem: "pdf_sanitize_filename (pdf_sanitize_filename s) = pdf_sanitize_filename s"
proof -
  define t where "t = pdf_sanitize_filename s"
  have "filter (\<lambda>x. x \<notin> set invalid_chars) t = t"
    using pdf_sanitize_no_invalid [of s] by (auto simp: t_def filter_id_conv)
  moreover have "split t = (if t = [] then [] else [t])"
    using pdf_sanitize_no_whitespace [of s] by (simp add: t_def split_no_space)
  ultimately have "pdf_sanitize_filename t = t" by (simp add: pdf_sanitize_eq)
  then show ?thesis by (simp add: t_def)
qed

lemma sanitize_clean:
  assumes "set s \<inter> set forbidden = {}" and "strip s = s"
  shows "sanitize_filename s = replace_char 0x20 0x5F s"
proof -
  have f: "filter (\<lambda>c. c \<notin> set forbidden) s = s"
    using assms(1) by (auto simp: filter_id_conv)
  have "strip (replace_char 0x20 0x5F s) = replace_char 0x20 0x5F s"
  proof (cases "s = []")
    case True
    then show ?thesis by (simp add: replace_char_def strip_def)
  next
    case False
    with assms(2) strip_ends [of s] have e: "\<not> isspace (hd s)" "\<not> isspace (last s)" by simp_all
    then have "hd s \<noteq> 0x20" "last s \<noteq> 0x20" using space_isspace by auto
    then have "hd (replace_char 0x20 0x5F s) = hd s" "last (replace_char 0x20 0x5F s) = last s"
      using False by (simp_all add: replace_char_def hd_map last_map)
    with e False show ?thesis by (intro strip_id) (simp add: replace_char_def)
  qed
  with f show ?thesis by (simp add: sanitize_filename_def)
qed

lemma sanitize_words:
  assumes "u \<noteq> []" "v \<noteq> []"
    and "\<forall>c \<in> set (u @ v). \<not> isspace c \<and> c \<notin> set forbidden"
  shows "sanitize_filename (u @ replicate n 0x20 @ v) = u @ replicate n 0x5F @ v"
proof -
  have sp: "(0x20::nat) \<notin> set forbidden" by (simp add: forbidden_def)
  have nosp: "0x20 \<notin> set u" "0x20 \<notin> set v" using assms(3) space_isspace by auto
  have "filter (\<lambda>c. c \<notin> set forbidden) (u @ replicate n 0x20 @ v) = u @ replicate n 0x20 @ v"
    using assms(3) sp by (auto simp: filter_id_conv)
  moreover have "replace_char 0x20 0x5F (u @ replicate n 0x20 @ v) = u @ replicate n 0x5F @ v"
    using nosp replace_char_id [of "0x20" u "0x5F"] replace_char_id [of "0x20" v "0x5F"]
    by (simp add: replace_char_def)
  moreover have "strip (u @ replicate n 0x5F @ v) = u @ replicate n 0x5F @ v"
    using assms by (intro strip_id) simp
  ultimately show ?thesis by (simp add: sanitize_filename_def)
qed

lemma split_from_sep:
  "isspace c \<Longrightarrow> split_from w (x @ c # y) = split_from w x @ split_from [] y"
  by (induction x arbitrary: w) auto

lemma split_from_ws_prefix:
  "\<forall>c \<in> set r. isspace c \<Longrightarrow> split_from [] (r @ y) = split_from [] y"
  by (induction r) auto

lemma split_run:
  assumes "r \<noteq> []" and "\<forall>c \<in> set r. isspace c"
  shows "split (x @ r @ y) = split x @ split y"
proof -
  from assms obtain c r' where r: "r = c # r'" "isspace c" "\<forall>c \<in> set r'. isspace c"
    by (cases r) auto
  have "split_from [] (x @ c # (r' @ y)) = split_from [] x @ split_from [] (r' @ y)"
    using r(2) by (rule split_from_sep)
  then show ?thesis using r(1,3) by (simp add: split_def split_from_ws_prefix)
qed

lemma join_append:
  "xs \<noteq> [] \<Longrightarrow> ys \<noteq> [] \<Longrightarrow> join sep (xs @ ys) = join sep xs @ sep @ join sep ys"
proof (induction sep xs rule: join.induct)
  case (1 sep)
  then show ?case by simp
next
  case (2 sep w)
  then show ?case by (cases ys) simp_all
next
  case (3 sep w v ws)
  then show ?case by simp
qed

lemma pdf_sanitize_run:
  assumes "\<forall>c \<in> set r. isspace c" and "\<exists>c \<in> set r. c \<notin> set invalid_chars"
    and "pdf_sanitize_filename u \<noteq> []" and "pdf_sanitize_filename v \<noteq> []"
  shows "pdf_sanitize_filename (u @ r @ v) = pdf_sanitize_filename u @ [0x5F] @ pdf_sanitize_filename v"
proof -
  let ?f = "filter (\<lambda>x. x \<notin> set invalid_chars)"
  have "?f r \<noteq> []" using assms(2) by (auto simp: filter_empty_conv)
  moreover have "\<forall>c \<in> set (?f r). isspace c" using assms(1) by simp
  ultimately have "split (?f u @ ?f r @ ?f v) = split (?f u) @ split (?f v)"
    by (rule split_run)
  moreover have "split (?f u) \<noteq> []" "split (?f v) \<noteq> []"
    using assms(3,4) by (auto simp: pdf_sanitize_eq)
  ultimately show ?thesis by (simp add: pdf_sanitize_eq join_append)
qed

lemma pdf_sanitize_word:
  assumes "\<forall>c \<in> set a. \<not> isspace c \<and> c \<notin> set invalid_chars"
  shows "pdf_sanitize_filename a = a"
proof -
  have "filter (\<lambda>x. x \<notin> set invalid_chars) a = a" using assms by (auto simp: filter_id_conv)
  moreover have "split a = (if a = [] then [] else [a])" using assms by (simp add: split_no_space)
  ultimately show ?thesis by (simp add: pdf_sanitize_eq)
qed

lemma pdf_sanitize_words:
  assumes "a \<noteq> []" "b \<noteq> []"
    and "\<forall>c \<in> set (a @ b). \<not> isspace c \<and> c \<notin> set invalid_chars"
  shows "pdf_sanitize_filename (a @ [0x20] @ b) = a @ [0x5F] @ b"
proof -
  have a: "pdf_sanitize_filename a = a" and b: "pdf_sanitize_filename b = b"
    using assms(3) by (simp_all add: pdf_sanitize_word)
  have "pdf_sanitize_filename (a @ [0x20] @ b)
      = pdf_sanitize_filename a @ [0x5F] @ pdf_sanitize_filename b"
    using assms(1,2) a b by (intro pdf_sanitize_run) (simp_all add: space_isspace invalid_chars_def)
  then show ?thesis by (simp add: a b)
qed

section \<open>Further properties of the sanitizers\<close>

lemma set_forbidden: "set forbidden = {0x5C, 0x2F, 0x3A, 0x2A, 0x3F, 0x22, 0x3C, 0x3E, 0x7C}"
  by (simp add: forbidden_def)

lemma set_invalid_chars:
  "set invalid_chars = {0x5C, 0x2F, 0x3A, 0x2A, 0x3F, 0x22, 0x3C, 0x3E, 0x7C, 0x0A, 0x0D, 0x09}"
  by (auto simp: invalid_chars_def)

lemma space_invalid_iff:
  "isspace c \<Longrightarrow> c \<in> set invalid_chars \<longleftrightarrow> c \<in> {0x0A, 0x0D, 0x09}"
  by (auto simp: isspace_def invalid_chars_def)

lemma split_from_ws_suffix:
  "\<forall>c \<in> set r. isspace c \<Longrightarrow> split_from w (u @ r) = split_from w u"
proof (cases r)
  case Nil
  then show ?thesis by simp
next
  case (Cons c r')
  assume ws: "\<forall>c \<in> set r. isspace c"
  with Cons have "isspace c" and r': "\<forall>c \<in> set r'. isspace c" by simp_all
  then have "split_from w (u @ c # r') = split_from w u @ split_from [] r'"
    by (simp add: split_from_sep)
  moreover have "split_from [] r' = []"
    using split_from_ws_prefix [OF r', of "[]"] by simp
  ultimately show ?thesis using Cons by simp
qed

lemma pdf_sanitize_outer:
  assumes "\<forall>c \<in> set r. isspace c"
  shows "pdf_sanitize_filename (r @ v) = pdf_sanitize_filename v"
    and "pdf_sanitize_filename (u @ r) = pdf_sanitize_filename u"
proof -
  let ?f = "filter (\<lambda>x. x \<notin> set invalid_chars)"
  have ws: "\<forall>c \<in> set (?f r). isspace c" using assms by simp
  show "pdf_sanitize_filename (r @ v) = pdf_sanitize_filename v"
    using split_from_ws_prefix [OF ws] by (simp add: pdf_sanitize_eq split_def)
  show "pdf_sanitize_filename (u @ r) = pdf_sanitize_filename u"
    using split_from_ws_suffix [OF ws] by (simp add: pdf_sanitize_eq split_def)
qed

lemma pdf_sanitize_deleted:
  assumes "set r \<subseteq> set invalid_chars"
  shows "pdf_sanitize_filename (u @ r @ v) = pdf_sanitize_filename (u @ v)"
proof -
  have "filter (\<lambda>x. x \<notin> set invalid_chars) r = []"
    using assms by (auto simp: filter_empty_conv)
  then show ?thesis by (simp add: pdf_sanitize_eq)
qed

section \<open>Properties of the naming loop\<close>

lemma unique_filename_free:
  "\<not> os_path_exists fs (os_path_join dir (unique_filename fs dir base ext name c))"
  by (induction fs dir base ext name c rule: unique_filename.induct)
     (subst unique_filename.simps, simp)

lemma unique_filename_unused:
  "\<not> os_path_exists fs (os_path_join dir name) \<Longrightarrow> unique_filename fs dir base ext name c = name"
  by (subst unique_filename.simps) simp

lemma unique_filename_least:
  "os_path_exists fs (os_path_join dir name) \<Longrightarrow>
     \<exists>k\<ge>c. unique_filename fs dir base ext name c = base @ [0x5F] @ str k @ ext \<and>
       (\<forall>j. c \<le> j \<and> j < k \<longrightarrow> os_path_exists fs (os_path_join dir (base @ [0x5F] @ str j @ ext)))"
proof (induction fs dir base ext name c rule: unique_filename.induct)
  case (1 fs dir base ext name c)
  let ?next = "base @ [0x5F] @ str c @ ext"
  have step: "unique_filename fs dir base ext name c = unique_filename fs dir base ext ?next (c + 1)"
    using "1.prems" by (subst unique_filename.simps) simp
  show ?case
  proof (cases "os_path_exists fs (os_path_join dir ?next)")
    case False
    then have "unique_filename fs dir base ext name c = ?next"
      using step by (simp add: unique_filename_unused)
    then show ?thesis by (intro exI [of _ c]) auto
  next
    case True
    from "1.IH" [OF "1.prems" True] obtain k where k: "c + 1 \<le> k"
      "unique_filename fs dir base ext ?next (c + 1) = base @ [0x5F] @ str k @ ext"
      "\<forall>j. c + 1 \<le> j \<and> j < k \<longrightarrow> os_path_exists fs (os_path_join dir (base @ [0x5F] @ str j @ ext))"
      by blast
    have "\<forall>j. c \<le> j \<and> j < k \<longrightarrow> os_path_exists fs (os_path_join dir (base @ [0x5F] @ str j @ ext))"
    proof (intro allI impI)
      fix j assume j: "c \<le> j \<and> j < k"
      show "os_path_exists fs (os_path_join dir (base @ [0x5F] @ str j @ ext))"
      proof (cases "j = c")
        case True
        then show ?thesis using \<open>os_path_exists fs (os_path_join dir ?next)\<close> by simp
      next
        case False
        with j have "c + 1 \<le> j \<and> j < k" by simp
        with k(3) show ?thesis by blast
      qed
    qed
    with k(1,2) step show ?thesis by (intro exI [of _ k]) simp
  qed
qed

lemma str_1: "str 1 = [0x31]" "str (Suc 0) = [0x31]"
  by (simp_all add: str.simps)




lemma first_suffix:
  assumes "1 \<le> k"
    and "\<forall>j. 1 \<le> j \<and> j < k \<longrightarrow> os_path_exists fs (os_path_join dir (b @ U ''_'' @ str j @ e))"
    and "\<not> os_path_exists fs (os_path_join dir (b @ U ''_1'' @ e))"
  shows "b @ U ''_'' @ str k @ e = b @ U ''_1'' @ e"
proof -
  have one: "b @ U ''_'' @ str 1 @ e = b @ U ''_1'' @ e" by (simp add: U_def str_1)
  have "\<not> 1 < k"
  proof
    assume "1 < k"
    with assms(2) have "os_path_exists fs (os_path_join dir (b @ U ''_'' @ str 1 @ e))" by blast
    with assms(3) show False unfolding one by blast
  qed
  with assms(1) have "k = 1" by simp
  with one show ?thesis by simp
qed

lemma first_free_suffix:
  assumes "os_path_exists fs (os_path_join dir (b @ e))"
  shows "\<exists>k\<ge>1. unique_filename fs dir b e (b @ e) 1 = b @ U ''_'' @ str k @ e \<and>
           \<not> os_path_exists fs (os_path_join dir (b @ U ''_'' @ str k @ e)) \<and>
           (\<forall>j. 1 \<le> j \<and> j < k \<longrightarrow> os_path_exists fs (os_path_join dir (b @ U ''_'' @ str j @ e)))"
proof -
  let ?n = "unique_filename fs dir b e (b @ e) 1"
  from unique_filename_least [OF assms, of 1 b e] obtain k where k: "1 \<le> k"
    "?n = b @ [0x5F] @ str k @ e"
    "\<forall>j. 1 \<le> j \<and> j < k \<longrightarrow> os_path_exists fs (os_path_join dir (b @ [0x5F] @ str j @ e))"
    by blast
  have "\<not> os_path_exists fs (os_path_join dir ?n)" by (rule unique_filename_free)
  with k show ?thesis by (intro exI [of _ k]) (simp add: U_def)
qed

section \<open>Properties of the image renamer\<close>

lemma os_path_join_nonempty: "b \<noteq> [] \<Longrightarrow> os_path_join a b \<noteq> []"
  by (simp add: os_path_join_def)

lemma create_resized_image_Some:
  assumes "create_resized_image fs w p = (Some t, fs1)"
  shows "t = os_path_join (os_path_dirname p) (os_path_basename p @ U ''.tmp'')"
    and "fs1 = List.insert t fs" and "t \<noteq> []" and "os_path_exists fs1 t"
    and "os_path_exists fs p"
proof -
  from assms show t: "t = os_path_join (os_path_dirname p) (os_path_basename p @ U ''.tmp'')"
    and "fs1 = List.insert t fs" and "os_path_exists fs p"
    by (auto simp: create_resized_image_def Let_def split: if_splits)
  then show "os_path_exists fs1 t" by (simp add: os_path_exists_def)
  show "t \<noteq> []" unfolding t by (rule os_path_join_nonempty) (simp add: U_def)
qed

lemma try_block_created:
  assumes "list_ex (endswith (lower (os_path_basename p))) supported_extensions"
    and "create_resized_image fs w p = (Some t, fs1)"
  shows "\<exists>outcome fs2. try_block fs w p = (outcome, fs2, Some t)"
  using assms
  by (simp add: try_block_def Let_def split: sum.splits option.splits)



lemma finally_removes:
  assumes "try_block fs w p = (outcome, fs2, Some t)" and "t \<noteq> []"
  shows "\<not> os_path_exists (snd (process_single_image fs w p)) t"
  using assms by (simp add: process_single_image_def os_path_exists_def os_remove_def)

lemma model_failure_exits:
  assumes "list_ex (endswith (lower (os_path_basename p))) supported_extensions"
    and "create_resized_image fs w p = (Some t, fs1)" and "load_ok w" and "reply w = None"
  shows "process_single_image fs w p = (Exits 1, removeAll t fs1)"
  using assms create_resized_image_Some(3,4) [OF assms(2)]
  by (simp add: process_single_image_def try_block_def load_image_def get_response_def
      os_remove_def Let_def)

lemma os_path_basename_eq:
  "os_path_basename p = rev (takeWhile (\<lambda>x. x \<noteq> 0x2F) (rev p))"
proof (cases "0x2F \<in> set p")
  case False
  then have tw: "takeWhile (\<lambda>x. x \<noteq> 0x2F) (rev p) = rev p"
    by (auto simp: takeWhile_eq_all_conv)
  have "os_path_basename p = p"
    using False by (simp add: os_path_basename_def os_path_split_def rfind_def Let_def)
  then show ?thesis unfolding tw by simp
next
  case True
  let ?t = "takeWhile (\<lambda>x. x \<noteq> 0x2F) (rev p)"
  have le: "length ?t \<le> length p"
    using length_takeWhile_le [of "\<lambda>x. x \<noteq> 0x2F" "rev p"] by simp
  have lt: "length ?t < length p"
  proof (rule ccontr)
    assume "\<not> length ?t < length p"
    with le have "length ?t = length (rev p)" by simp
    then have "?t = rev p" by (metis takeWhile_eq_take take_all order_refl)
    then have "\<forall>x \<in> set (rev p). x \<noteq> 0x2F" by (metis set_takeWhileD)
    with True show False by auto
  qed
  have "nat (rfind 0x2F p + 1) = length p - length ?t"
    using True lt by (simp add: rfind_def)
  then have "os_path_basename p = drop (length p - length ?t) p"
    by (simp add: os_path_basename_def os_path_split_def Let_def)
  also have "\<dots> = rev (take (length ?t) (rev p))"
    by (simp add: rev_take)
  also have "take (length ?t) (rev p) = ?t"
    by (simp add: takeWhile_eq_take [symmetric])
  finally show ?thesis .
qed

lemma os_path_basename_suffix:
  assumes "0x2F \<notin> set x"
  shows "length x \<le> length (os_path_basename (pre @ x))"
proof -
  have "takeWhile (\<lambda>c. c \<noteq> 0x2F) (rev x @ rev pre)
      = rev x @ takeWhile (\<lambda>c. c \<noteq> 0x2F) (rev pre)"
    using assms by (intro takeWhile_append2) auto
  then show ?thesis by (simp add: os_path_basename_eq)
qed

lemma os_path_join_suffix: "\<exists>pre. os_path_join a b = pre @ b"
proof -
  have "os_path_join a b = [] @ b \<or> os_path_join a b = a @ b \<or> os_path_join a b = (a @ [0x2F]) @ b"
    by (simp add: os_path_join_def)
  then show ?thesis by blast
qed

lemma temp_path_differs:
  "os_path_join (os_path_dirname q) (os_path_basename q @ U ''.tmp'') \<noteq> q"
proof
  let ?x = "os_path_basename q @ U ''.tmp''"
  assume eq: "os_path_join (os_path_dirname q) ?x = q"
  obtain pre where pre: "os_path_join (os_path_dirname q) ?x = pre @ ?x"
    using os_path_join_suffix by blast
  have "0x2F \<notin> set (os_path_basename q)"
    unfolding os_path_basename_eq using set_takeWhileD [of _ "\<lambda>x. x \<noteq> 0x2F" "rev q"] by auto
  then have "0x2F \<notin> set ?x" by (simp add: U_def)
  then have "length ?x \<le> length (os_path_basename (pre @ ?x))"
    by (rule os_path_basename_suffix)
  with eq pre show False by (simp add: U_def)
qed

lemma try_block_refused:
  assumes "list_ex (endswith (lower (os_path_basename q))) supported_extensions"
    and "create_resized_image fs w q = (Some tmp, fs1)"
    and "load_ok w" and "reply w = Some d" and "\<not> rename_permitted w"
  shows "process_single_image fs w q = (CouldNotProcess, removeAll tmp fs1)"
  using assms create_resized_image_Some(3,4) [OF assms(2)]
  by (simp add: process_single_image_def try_block_def load_image_def get_response_def
      os_rename_def os_remove_def Let_def)

lemma image_self_collision:
  assumes sup: "list_ex (endswith (lower (os_path_basename q))) supported_extensions"
    and cr: "create_resized_image fs w q = (Some tmp, fs1)"
    and ld: "load_ok w" and rp: "reply w = Some d"
    and own: "os_path_exists fs (os_path_join (os_path_dirname q)
                (sanitize_filename d @ snd (os_path_splitext (os_path_basename q))))"
  shows "\<exists>k\<ge>1.
          \<not> os_path_exists fs1 (os_path_join (os_path_dirname q)
               (sanitize_filename d @ U ''_'' @ str k @ snd (os_path_splitext (os_path_basename q)))) \<and>
          (\<forall>j. 1 \<le> j \<and> j < k \<longrightarrow>
             os_path_exists fs1 (os_path_join (os_path_dirname q)
               (sanitize_filename d @ U ''_'' @ str j @ snd (os_path_splitext (os_path_basename q))))) \<and>
          (rename_permitted w \<longrightarrow>
             fst (process_single_image fs w q)
               = Returned (Renamed (sanitize_filename d @ U ''_'' @ str k @
                   snd (os_path_splitext (os_path_basename q)))) \<and>
             \<not> os_path_exists (snd (process_single_image fs w q)) q \<and>
             os_path_exists (snd (process_single_image fs w q)) (os_path_join (os_path_dirname q)
               (sanitize_filename d @ U ''_'' @ str k @ snd (os_path_splitext (os_path_basename q))))) \<and>
          (\<not> rename_permitted w \<longrightarrow>
             fst (process_single_image fs w q) = CouldNotProcess \<and>
             os_path_exists (snd (process_single_image fs w q)) q)"
proof -
  let ?b = "sanitize_filename d" and ?e = "snd (os_path_splitext (os_path_basename q))"
  let ?dir = "os_path_dirname q"
  let ?n = "unique_filename fs1 ?dir ?b ?e (?b @ ?e) 1"
  note c = create_resized_image_Some [OF cr]
  have q1: "os_path_exists fs1 q" using c(2,5) by (simp add: os_path_exists_def)
  have "os_path_exists fs1 (os_path_join ?dir (?b @ ?e))"
    using own c(2) by (simp add: os_path_exists_def)
  from first_free_suffix [OF this] obtain k where k: "1 \<le> k"
    "?n = ?b @ U ''_'' @ str k @ ?e"
    "\<not> os_path_exists fs1 (os_path_join ?dir (?b @ U ''_'' @ str k @ ?e))"
    "\<forall>j. 1 \<le> j \<and> j < k \<longrightarrow> os_path_exists fs1 (os_path_join ?dir (?b @ U ''_'' @ str j @ ?e))"
    by blast
  let ?new = "os_path_join ?dir (?b @ U ''_'' @ str k @ ?e)"
  from k(3) q1 have neq: "?new \<noteq> q" by auto
  from k(3) c(4) have ntmp: "?new \<noteq> tmp" by auto
  have q2: "os_path_exists fs q" by (rule c(5))
  have ok: "fst (process_single_image fs w q) = Returned (Renamed (?b @ U ''_'' @ str k @ ?e)) \<and>
      \<not> os_path_exists (snd (process_single_image fs w q)) q \<and>
      os_path_exists (snd (process_single_image fs w q)) ?new"
    if perm: "rename_permitted w"
  proof -
    have tb: "try_block fs w q
        = (Inr (Renamed ?n), List.insert (os_path_join ?dir ?n) (removeAll q fs1), Some tmp)"
      using sup cr ld rp perm q1
      by (simp add: try_block_def load_image_def get_response_def os_rename_def Let_def)
    then show ?thesis
      using neq ntmp k(2)
      by (auto simp: process_single_image_def os_path_exists_def os_remove_def)
  qed
  have no: "fst (process_single_image fs w q) = CouldNotProcess \<and>
      os_path_exists (snd (process_single_image fs w q)) q"
    if perm: "\<not> rename_permitted w"
  proof -
    have "process_single_image fs w q = (CouldNotProcess, removeAll tmp fs1)"
      using sup cr ld rp perm by (rule try_block_refused)
    moreover have "tmp \<noteq> q"
      unfolding c(1) by (rule temp_path_differs)
    ultimately show ?thesis
      using q1 by (simp add: os_path_exists_def)
  qed
  from ok no k(1,3,4) show ?thesis by blast
qed

section \<open>Properties of the PDF renamer\<close>



lemma rename_to_title_Some:
  assumes "os_path_exists (files s) p" and "t \<noteq> []" and "pdf_sanitize_filename t \<noteq> []"
  shows "rename_to_title s w p dir ext (Some t) =
     (if rename_permitted w
      then (RenamedTo (unique_filename (files s) dir (pdf_sanitize_filename t) ext
                (pdf_sanitize_filename t @ ext) 1),
            s\<lparr>files := List.insert
                 (os_path_join dir (unique_filename (files s) dir (pdf_sanitize_filename t) ext
                    (pdf_sanitize_filename t @ ext) 1))
                 (removeAll p (files s))\<rparr>)
      else (RenameError, s))"
proof -
  let ?n = "unique_filename (files s) dir (pdf_sanitize_filename t) ext (pdf_sanitize_filename t @ ext) 1"
  have "\<not> os_path_exists (files s) (os_path_join dir ?n)" by (rule unique_filename_free)
  with assms(1) have "p \<noteq> os_path_join dir ?n" by auto
  with assms show ?thesis by (simp add: rename_to_title_def os_rename_def Let_def)
qed

lemma rename_to_title_empty:
  "t \<noteq> [] \<Longrightarrow> pdf_sanitize_filename t = [] \<Longrightarrow>
     rename_to_title s w p dir ext (Some t) = (EmptySanitizedTitle, s)"
  by (simp add: rename_to_title_def)

lemma rename_to_title_prompts: "prompts (snd (rename_to_title s w p dir ext title)) = prompts s"
  by (simp add: rename_to_title_def os_rename_def Let_def split: option.splits)

lemma rename_to_title_not_kept:
  assumes "os_path_exists (files s) p"
  shows "fst (rename_to_title s w p dir ext title) \<noteq> AlreadyNamed"
proof (cases "\<exists>t. title = Some t \<and> t \<noteq> [] \<and> pdf_sanitize_filename t \<noteq> []")
  case True
  then obtain t where "title = Some t" "t \<noteq> []" "pdf_sanitize_filename t \<noteq> []" by blast
  with rename_to_title_Some [OF assms this(2,3), of w dir ext] show ?thesis by simp
next
  case False
  then show ?thesis by (auto simp: rename_to_title_def split: option.splits)
qed

lemma process_file_eq:
  "process_file s w p =
     (if \<not> os_path_exists (files s) p then (FileNotFound, s)
      else if get_pdf_metadata_title w = None \<or> get_pdf_metadata_title w = Some []
      then if get_first_page_text w 2 \<noteq> []
           then rename_to_title
                  (s\<lparr>prompts := snd (get_title_from_gemini (prompts s) w (get_first_page_text w 2))\<rparr>)
                  w p (fst (os_path_split p)) (snd (os_path_splitext (snd (os_path_split p))))
                  (fst (get_title_from_gemini (prompts s) w (get_first_page_text w 2)))
           else (NoText, s)
      else rename_to_title s w p (fst (os_path_split p))
             (snd (os_path_splitext (snd (os_path_split p)))) (get_pdf_metadata_title w))"
  by (simp add: process_file_def Let_def split: prod.splits)



lemma process_file_metadata:
  assumes "os_path_exists (files s) p" and "get_pdf_metadata_title w = Some t" and "t \<noteq> []"
  shows "process_file s w p = rename_to_title s w p (fst (os_path_split p))
           (snd (os_path_splitext (snd (os_path_split p)))) (Some t)"
  using assms by (simp add: process_file_eq)

lemma process_file_model:
  assumes "os_path_exists (files s) p"
    and "get_pdf_metadata_title w = None \<or> get_pdf_metadata_title w = Some []"
    and "strip (get_first_page_text w 2) \<noteq> []"
  shows "process_file s w p =
     rename_to_title (s\<lparr>prompts := prompts s @ [prompt_header @ take 2000 (get_first_page_text w 2)]\<rparr>)
       w p (fst (os_path_split p)) (snd (os_path_splitext (snd (os_path_split p))))
       (map_option strip (reply w))"
proof -
  have "get_first_page_text w 2 \<noteq> []" using assms(3) by (auto simp: strip_def)
  moreover have "get_title_from_gemini (prompts s) w (get_first_page_text w 2)
      = (map_option strip (reply w), prompts s @ [prompt_header @ take 2000 (get_first_page_text w 2)])"
    using assms(3) by (simp add: get_title_from_gemini_def Let_def split: option.splits)
  ultimately show ?thesis using assms(1,2) by (auto simp: process_file_eq)
qed

lemma process_file_blank_text:
  assumes "os_path_exists (files s) p"
    and "get_pdf_metadata_title w = None \<or> get_pdf_metadata_title w = Some []"
    and "strip (get_first_page_text w 2) = []"
  shows "process_file s w p = (if get_first_page_text w 2 = [] then NoText else NoTitle, s)"
  using assms
  by (auto simp: process_file_eq get_title_from_gemini_def rename_to_title_def)

lemma process_file_prompts_metadata:
  assumes "\<not> (get_pdf_metadata_title w = None \<or> get_pdf_metadata_title w = Some [])"
  shows "prompts (snd (process_file s w p)) = prompts s"
  using assms by (auto simp: process_file_eq rename_to_title_prompts)

lemma process_file_not_kept: "fst (process_file s w p) \<noteq> AlreadyNamed"
proof (cases "os_path_exists (files s) p")
  case False
  then show ?thesis by (simp add: process_file_eq)
next
  case True
  then have "\<And>sent. os_path_exists (files (s\<lparr>prompts := sent\<rparr>)) p" by simp
  from rename_to_title_not_kept [OF this] rename_to_title_not_kept [OF True]
  show ?thesis by (simp add: process_file_eq)
qed

lemma process_file_title:
  assumes "os_path_exists (files s) p" and "t \<noteq> []"
    and "get_pdf_metadata_title w = Some t \<or>
         ((get_pdf_metadata_title w = None \<or> get_pdf_metadata_title w = Some []) \<and>
          strip (get_first_page_text w 2) \<noteq> [] \<and> map_option strip (reply w) = Some t)"
  shows "\<exists>sent. process_file s w p =
     rename_to_title (s\<lparr>prompts := sent\<rparr>) w p (fst (os_path_split p))
       (snd (os_path_splitext (snd (os_path_split p)))) (Some t)"
proof (cases "get_pdf_metadata_title w = Some t")
  case True
  with assms(1,2) have "process_file s w p =
     rename_to_title (s\<lparr>prompts := prompts s\<rparr>) w p (fst (os_path_split p))
       (snd (os_path_splitext (snd (os_path_split p)))) (Some t)"
    by (simp add: process_file_metadata)
  then show ?thesis by blast
next
  case False
  with assms(3) have "get_pdf_metadata_title w = None \<or> get_pdf_metadata_title w = Some []"
    and "strip (get_first_page_text w 2) \<noteq> []" and "map_option strip (reply w) = Some t"
    by blast+
  with process_file_model [OF assms(1) this(1,2)] show ?thesis by auto
qed

lemma rename_to_title_refused:
  assumes "os_path_exists (files s) p" and "t \<noteq> []" and "pdf_sanitize_filename t \<noteq> []"
    and "\<not> rename_permitted w"
  shows "rename_to_title s w p dir ext (Some t) = (RenameError, s)"
  using rename_to_title_Some [OF assms(1-3), of w dir ext] assms(4) by simp

lemma pdf_self_collision:
  assumes ex: "os_path_exists (files s) p" and t: "t \<noteq> []" "pdf_sanitize_filename t \<noteq> []"
    and own: "os_path_exists (files s) (os_path_join dir (pdf_sanitize_filename t @ ext))"
  shows "\<exists>k\<ge>1.
          \<not> os_path_exists (files s) (os_path_join dir (pdf_sanitize_filename t @ U ''_'' @ str k @ ext)) \<and>
          (\<forall>j. 1 \<le> j \<and> j < k \<longrightarrow>
             os_path_exists (files s) (os_path_join dir (pdf_sanitize_filename t @ U ''_'' @ str j @ ext))) \<and>
          (rename_permitted w \<longrightarrow>
             fst (rename_to_title s w p dir ext (Some t))
               = RenamedTo (pdf_sanitize_filename t @ U ''_'' @ str k @ ext) \<and>
             \<not> os_path_exists (files (snd (rename_to_title s w p dir ext (Some t)))) p \<and>
             os_path_exists (files (snd (rename_to_title s w p dir ext (Some t))))
               (os_path_join dir (pdf_sanitize_filename t @ U ''_'' @ str k @ ext))) \<and>
          (\<not> rename_permitted w \<longrightarrow>
             fst (rename_to_title s w p dir ext (Some t)) = RenameError \<and>
             files (snd (rename_to_title s w p dir ext (Some t))) = files s)"
proof -
  let ?b = "pdf_sanitize_filename t"
  let ?n = "unique_filename (files s) dir ?b ext (?b @ ext) 1"
  from first_free_suffix [OF own] obtain k where k: "1 \<le> k"
    "?n = ?b @ U ''_'' @ str k @ ext"
    "\<not> os_path_exists (files s) (os_path_join dir (?b @ U ''_'' @ str k @ ext))"
    "\<forall>j. 1 \<le> j \<and> j < k \<longrightarrow> os_path_exists (files s) (os_path_join dir (?b @ U ''_'' @ str j @ ext))"
    by blast
  from k(3) ex have neq: "os_path_join dir (?b @ U ''_'' @ str k @ ext) \<noteq> p" by auto
  have ok: "rename_to_title s w p dir ext (Some t)
      = (RenamedTo ?n, s\<lparr>files := List.insert (os_path_join dir ?n) (removeAll p (files s))\<rparr>)"
    if "rename_permitted w"
    using rename_to_title_Some [OF ex t, of w dir ext] that by simp
  have no: "rename_to_title s w p dir ext (Some t) = (RenameError, s)" if "\<not> rename_permitted w"
    using ex t that by (rule rename_to_title_refused)
  have "rename_permitted w \<longrightarrow>
             fst (rename_to_title s w p dir ext (Some t)) = RenamedTo (?b @ U ''_'' @ str k @ ext) \<and>
             \<not> os_path_exists (files (snd (rename_to_title s w p dir ext (Some t)))) p \<and>
             os_path_exists (files (snd (rename_to_title s w p dir ext (Some t))))
               (os_path_join dir (?b @ U ''_'' @ str k @ ext))"
    using ok neq k(2) by (auto simp: os_path_exists_def)
  moreover have "\<not> rename_permitted w \<longrightarrow>
             fst (rename_to_title s w p dir ext (Some t)) = RenameError \<and>
             files (snd (rename_to_title s w p dir ext (Some t))) = files s"
    using no by simp
  ultimately show ?thesis using k(1,3,4) by blast
qed

lemma read_pages_eq:
  "read_pages acc ps =
     (if Raises \<in> set ps then None
      else Some (acc @ concat (map (\<lambda>pg. case pg of Text (Some x) \<Rightarrow> x | _ \<Rightarrow> []) ps)))"
proof (induction ps arbitrary: acc)
  case Nil
  then show ?case by simp
next
  case (Cons pg ps)
  then show ?case by (cases pg) (auto split: option.splits)
qed

lemma get_first_page_text_eq:
  "document w = Some doc \<Longrightarrow>
     get_first_page_text w 2 = (case read_pages [] (take 2 (pages doc)) of None \<Rightarrow> [] | Some x \<Rightarrow> x)"
  by (simp add: get_first_page_text_def min_def)

section \<open>Evaluation on concrete inputs\<close>

lemmas path_defs = os_path_split_def os_path_basename_def os_path_dirname_def os_path_splitext_def
  os_path_join_def os_path_exists_def os_rename_def os_remove_def rfind_def rstrip_char_def

lemmas string_defs = U_def strip_def isspace_def split_def remove_char_def replace_char_def
  lower_def endswith_def

lemmas image_defs = process_single_image_def try_block_def create_resized_image_def
  load_image_def get_response_def sanitize_filename_def forbidden_def supported_extensions_def

lemmas pdf_defs = process_file_def rename_to_title_def get_pdf_metadata_title_def
  get_first_page_text_def get_title_from_gemini_def pdf_sanitize_filename_def invalid_chars_def



lemma supported_png: "list_ex (endswith (lower (os_path_basename (U ''d/a.png'')))) supported_extensions"
  by (simp add: path_defs string_defs supported_extensions_def)

lemma created_example:
  "create_resized_image [U ''d/a.png'']
     \<lparr>reply = None, rename_permitted = True, resize_ok = True, load_ok = True\<rparr> (U ''d/a.png'')
   = (Some (U ''d/a.png.tmp''), [U ''d/a.png.tmp'', U ''d/a.png''])"
  by (simp add: create_resized_image_def path_defs string_defs Let_def)

lemma titled_example:
  "get_pdf_metadata_title
     \<lparr>reply = None, rename_permitted = True,
      document = Some \<lparr>metadata = Some [U ''/Title'' \<mapsto> U ''Foo''], pages = []\<rparr>\<rparr>
     = Some (U ''Foo'')"
  "pdf_sanitize_filename (U ''Foo'') = U ''Foo''"
  "fst (os_path_split (U ''d/x.pdf'')) = U ''d''"
  "snd (os_path_splitext (snd (os_path_split (U ''d/x.pdf'')))) = U ''.pdf''"
  by (simp_all add: pdf_defs path_defs string_defs)

lemma untitled_example:
  "get_pdf_metadata_title
     \<lparr>reply = Some (U ''T''), rename_permitted = True,
      document = Some \<lparr>metadata = None, pages = [Text (Some (U ''Hello''))]\<rparr>\<rparr> = None"
  "get_first_page_text
     \<lparr>reply = Some (U ''T''), rename_permitted = True,
      document = Some \<lparr>metadata = None, pages = [Text (Some (U ''Hello''))]\<rparr>\<rparr> 2 = U ''Hello''"
  "strip (U ''Hello'') = U ''Hello''"
  by (simp_all add: pdf_defs path_defs string_defs)

section \<open>The claims\<close>




text \<open>
  C4. Sanitizer output is filesystem-safe. For every input, the output of the image
  sanitizer holds none of the characters backslash, slash, colon, star, question mark,
  double quote, less-than, greater-than and vertical bar, and no space; it neither begins
  nor ends with whitespace (stripping it again changes nothing); on an input that is
  already free of forbidden characters and of outer whitespace, it is the input with each
  space replaced by an underscore. The output of the PDF sanitizer holds none of those
  characters, no newline, carriage return or tab, and no whitespace at all; a space
  between two words comes out as an underscore.
\<close>

theorem sanitizer_output_safe:
  "set (sanitize_filename s) \<inter> {0x5C, 0x2F, 0x3A, 0x2A, 0x3F, 0x22, 0x3C, 0x3E, 0x7C} = {} \<and>
   0x20 \<notin> set (sanitize_filename s) \<and>
   strip (sanitize_filename s) = sanitize_filename s \<and>
   (sanitize_filename s \<noteq> [] \<longrightarrow>
      \<not> isspace (hd (sanitize_filename s)) \<and> \<not> isspace (last (sanitize_filename s))) \<and>
   (set s \<inter> {0x5C, 0x2F, 0x3A, 0x2A, 0x3F, 0x22, 0x3C, 0x3E, 0x7C} = {} \<and> strip s = s \<longrightarrow>
      sanitize_filename s = map (\<lambda>c. if c = 0x20 then 0x5F else c) s) \<and>
   set (pdf_sanitize_filename s) \<inter>
     {0x5C, 0x2F, 0x3A, 0x2A, 0x3F, 0x22, 0x3C, 0x3E, 0x7C, 0x0A, 0x0D, 0x09} = {} \<and>
   (\<forall>c \<in> set (pdf_sanitize_filename s). \<not> isspace c) \<and>
   strip (pdf_sanitize_filename s) = pdf_sanitize_filename s \<and>
   (a \<noteq> [] \<and> b \<noteq> [] \<and>
    (\<forall>c \<in> set (a @ b). \<not> isspace c \<and>
       c \<notin> {0x5C, 0x2F, 0x3A, 0x2A, 0x3F, 0x22, 0x3C, 0x3E, 0x7C, 0x0A, 0x0D, 0x09}) \<longrightarrow>
      pdf_sanitize_filename (a @ U '' '' @ b) = a @ U ''_'' @ b)"
proof (intro conjI impI)
  show "set (sanitize_filename s) \<inter> {0x5C, 0x2F, 0x3A, 0x2A, 0x3F, 0x22, 0x3C, 0x3E, 0x7C} = {}"
    using sanitize_no_forbidden [of s] by (simp only: set_forbidden)
  show "0x20 \<notin> set (sanitize_filename s)"
    by (rule sanitize_no_space)
  show "strip (sanitize_filename s) = sanitize_filename s"
    by (rule sanitize_stripped)
  show "\<not> isspace (hd (sanitize_filename s))" and "\<not> isspace (last (sanitize_filename s))"
    if "sanitize_filename s \<noteq> []"
    using that strip_ends [of "sanitize_filename s"] by (simp_all add: sanitize_stripped)
  show "sanitize_filename s = map (\<lambda>c. if c = 0x20 then 0x5F else c) s"
    if "set s \<inter> {0x5C, 0x2F, 0x3A, 0x2A, 0x3F, 0x22, 0x3C, 0x3E, 0x7C} = {} \<and> strip s = s"
    using that sanitize_clean [of s] by (simp only: set_forbidden replace_char_def)
  show "set (pdf_sanitize_filename s) \<inter>
     {0x5C, 0x2F, 0x3A, 0x2A, 0x3F, 0x22, 0x3C, 0x3E, 0x7C, 0x0A, 0x0D, 0x09} = {}"
    using pdf_sanitize_no_invalid [of s] by (simp only: set_invalid_chars)
  show "\<forall>c \<in> set (pdf_sanitize_filename s). \<not> isspace c"
    by (rule pdf_sanitize_no_whitespace)
  show "strip (pdf_sanitize_filename s) = pdf_sanitize_filename s"
    by (rule strip_no_space) (rule pdf_sanitize_no_whitespace)
  show "pdf_sanitize_filename (a @ U '' '' @ b) = a @ U ''_'' @ b"
    if "a \<noteq> [] \<and> b \<noteq> [] \<and>
      (\<forall>c \<in> set (a @ b). \<not> isspace c \<and>
         c \<notin> {0x5C, 0x2F, 0x3A, 0x2A, 0x3F, 0x22, 0x3C, 0x3E, 0x7C, 0x0A, 0x0D, 0x09})"
  proof -
    from that have "a \<noteq> []" "b \<noteq> []"
      and "\<forall>c \<in> set (a @ b). \<not> isspace c \<and> c \<notin> set invalid_chars"
      unfolding set_invalid_chars by blast+
    from pdf_sanitize_words [OF this] show ?thesis by (simp add: U_def)
  qed
qed

theorem sanitizer_output_safe_witness:
  "sanitize_filename (U ''my file'') = U ''my_file'' \<and>
   sanitize_filename (U ''my file'') \<noteq> [] \<and>
   set (U ''my file'') \<inter> {0x5C, 0x2F, 0x3A, 0x2A, 0x3F, 0x22, 0x3C, 0x3E, 0x7C} = {} \<and>
   strip (U ''my file'') = U ''my file'' \<and>
   \<not> isspace (hd (sanitize_filename (U ''my file''))) \<and>
   U ''my'' \<noteq> [] \<and> U ''file'' \<noteq> [] \<and>
   pdf_sanitize_filename (U ''my'' @ U '' '' @ U ''file'') = U ''my_file''"
proof -
  have clean: "set (U ''my file'') \<inter> {0x5C, 0x2F, 0x3A, 0x2A, 0x3F, 0x22, 0x3C, 0x3E, 0x7C} = {}"
    and stripped: "strip (U ''my file'') = U ''my file''"
    by (simp_all add: U_def strip_def isspace_def)
  have words: "U ''my'' \<noteq> [] \<and> U ''file'' \<noteq> [] \<and>
    (\<forall>c \<in> set (U ''my'' @ U ''file''). \<not> isspace c \<and>
       c \<notin> {0x5C, 0x2F, 0x3A, 0x2A, 0x3F, 0x22, 0x3C, 0x3E, 0x7C, 0x0A, 0x0D, 0x09})"
    by (simp add: U_def isspace_def)
  note t = sanitizer_output_safe [of "U ''my file''" "U ''my''" "U ''file''"]
  have r1: "sanitize_filename (U ''my file'') = map (\<lambda>c. if c = 0x20 then 0x5F else c) (U ''my file'')"
    using t clean stripped by blast
  then have r1': "sanitize_filename (U ''my file'') = U ''my_file''"
    by (simp add: U_def)
  have r2: "pdf_sanitize_filename (U ''my'' @ U '' '' @ U ''file'') = U ''my'' @ U ''_'' @ U ''file''"
    using t words by blast
  have r3: "\<not> isspace (hd (sanitize_filename (U ''my file'')))"
    using t r1' by (simp add: U_def)
  show ?thesis
    using r1' r2 r3 clean stripped by (simp add: U_def)
qed

text \<open>
  C8. Sanitizer idempotence: sanitizing twice equals sanitizing once, for the image
  renamer's sanitizer and for the PDF renamer's.
\<close>

theorem sanitizer_idempotent:
  "sanitize_filename (sanitize_filename s) = sanitize_filename s \<and>
   pdf_sanitize_filename (pdf_sanitize_filename s) = pdf_sanitize_filename s"
  by (simp only: sanitize_idem pdf_sanitize_idem)

text \<open>
  C7, as stated, fails: the image sanitizer turns two consecutive spaces into two
  underscores, and the PDF sanitizer deletes a tab between two words instead of putting
  an underscore there.
\<close>

theorem whitespace_collapse_counterexample:
  "sanitize_filename (U ''a  b'') = U ''a__b'' \<and>
   sanitize_filename (U ''a  b'') \<noteq> U ''a_b'' \<and>
   pdf_sanitize_filename (U ''a'' @ [0x09] @ U ''b'') = U ''ab'' \<and>
   pdf_sanitize_filename (U ''a'' @ [0x09] @ U ''b'') \<noteq> U ''a_b''"
  by (simp add: sanitize_filename_def pdf_sanitize_filename_def forbidden_def invalid_chars_def
      U_def strip_def isspace_def split_def remove_char_def replace_char_def)

text \<open>
  C7, amended. The PDF sanitizer first deletes tab, newline and carriage return together
  with the other forbidden characters, so a run made of these alone joins its
  neighbours; every other run of whitespace between two parts that sanitize to something
  becomes exactly one underscore, and leading and trailing runs are dropped. The image
  sanitizer replaces each space by one underscore: \<open>n\<close> spaces between two words give \<open>n\<close>
  underscores.
\<close>

theorem whitespace_runs:
  "((\<forall>c \<in> set r. isspace c) \<and> (\<exists>c \<in> set r. c \<notin> {0x0A, 0x0D, 0x09}) \<and>
    pdf_sanitize_filename u \<noteq> [] \<and> pdf_sanitize_filename v \<noteq> [] \<longrightarrow>
      pdf_sanitize_filename (u @ r @ v)
        = pdf_sanitize_filename u @ U ''_'' @ pdf_sanitize_filename v) \<and>
   (set r \<subseteq> {0x0A, 0x0D, 0x09} \<longrightarrow>
      pdf_sanitize_filename (u @ r @ v) = pdf_sanitize_filename (u @ v)) \<and>
   ((\<forall>c \<in> set r. isspace c) \<longrightarrow>
      pdf_sanitize_filename (r @ v) = pdf_sanitize_filename v \<and>
      pdf_sanitize_filename (u @ r) = pdf_sanitize_filename u) \<and>
   (x \<noteq> [] \<and> y \<noteq> [] \<and> (\<forall>c \<in> set (x @ y). \<not> isspace c \<and> c \<notin> set forbidden) \<longrightarrow>
      sanitize_filename (x @ replicate n 0x20 @ y) = x @ replicate n 0x5F @ y)"
proof (intro conjI impI)
  show "pdf_sanitize_filename (u @ r @ v)
      = pdf_sanitize_filename u @ U ''_'' @ pdf_sanitize_filename v"
    if h: "(\<forall>c \<in> set r. isspace c) \<and> (\<exists>c \<in> set r. c \<notin> {0x0A, 0x0D, 0x09}) \<and>
      pdf_sanitize_filename u \<noteq> [] \<and> pdf_sanitize_filename v \<noteq> []"
  proof -
    from h have ws: "\<forall>c \<in> set r. isspace c" by blast
    from h obtain c where "c \<in> set r" "c \<notin> {0x0A, 0x0D, 0x09}" by blast
    with ws have "\<exists>c \<in> set r. c \<notin> set invalid_chars"
      using space_invalid_iff by blast
    with ws h have "pdf_sanitize_filename (u @ r @ v)
        = pdf_sanitize_filename u @ [0x5F] @ pdf_sanitize_filename v"
      by (intro pdf_sanitize_run) blast+
    then show ?thesis by (simp add: U_def)
  qed
  show "pdf_sanitize_filename (u @ r @ v) = pdf_sanitize_filename (u @ v)"
    if "set r \<subseteq> {0x0A, 0x0D, 0x09}"
    using that by (intro pdf_sanitize_deleted) (auto simp: set_invalid_chars)
  show "pdf_sanitize_filename (r @ v) = pdf_sanitize_filename v"
    and "pdf_sanitize_filename (u @ r) = pdf_sanitize_filename u"
    if "\<forall>c \<in> set r. isspace c"
    using that by (rule pdf_sanitize_outer)+
  show "sanitize_filename (x @ replicate n 0x20 @ y) = x @ replicate n 0x5F @ y"
    if "x \<noteq> [] \<and> y \<noteq> [] \<and> (\<forall>c \<in> set (x @ y). \<not> isspace c \<and> c \<notin> set forbidden)"
    using that by (intro sanitize_words) blast+
qed

theorem whitespace_runs_witness:
  "isspace 0x20 \<and> isspace 0x09 \<and>
   pdf_sanitize_filename (U ''a'') = U ''a'' \<and> pdf_sanitize_filename (U ''b'') = U ''b'' \<and>
   pdf_sanitize_filename (U ''a'' @ [0x20, 0x09, 0x20] @ U ''b'') = U ''a_b'' \<and>
   pdf_sanitize_filename (U ''a'' @ [0x09, 0x0A] @ U ''b'') = pdf_sanitize_filename (U ''a'' @ U ''b'') \<and>
   pdf_sanitize_filename ([0x20, 0x09, 0x20] @ U ''b'') = U ''b'' \<and>
   sanitize_filename (U ''a'' @ replicate 3 0x20 @ U ''b'') = U ''a___b''"
proof -
  have sp: "isspace 0x20" "isspace 0x09" by (simp_all add: isspace_def)
  have ab: "pdf_sanitize_filename (U ''a'') = U ''a''" "pdf_sanitize_filename (U ''b'') = U ''b''"
    by (simp_all add: pdf_sanitize_filename_def invalid_chars_def U_def strip_def isspace_def
        split_def remove_char_def)
  have ne: "U ''a'' \<noteq> []" "U ''b'' \<noteq> []" by (simp_all add: U_def)
  have h1: "(\<forall>c \<in> set [0x20, 0x09, 0x20]. isspace c) \<and>
     (\<exists>c \<in> set [0x20, 0x09, 0x20::nat]. c \<notin> {0x0A, 0x0D, 0x09})"
    using sp by simp
  have h2: "set [0x09, 0x0A] \<subseteq> {0x0A, 0x0D, 0x09::nat}" by simp
  have h3: "U ''a'' \<noteq> [] \<and> U ''b'' \<noteq> [] \<and>
     (\<forall>c \<in> set (U ''a'' @ U ''b''). \<not> isspace c \<and> c \<notin> set forbidden)"
    by (simp add: U_def isspace_def forbidden_def)
  note t1 = whitespace_runs [of "[0x20, 0x09, 0x20]" "U ''a''" "U ''b''" "U ''a''" "U ''b''" 3]
  note t2 = whitespace_runs [of "[0x09, 0x0A]" "U ''a''" "U ''b''" "U ''a''" "U ''b''" 3]
  have r1: "pdf_sanitize_filename (U ''a'' @ [0x20, 0x09, 0x20] @ U ''b'')
      = pdf_sanitize_filename (U ''a'') @ U ''_'' @ pdf_sanitize_filename (U ''b'')"
    using t1 h1 ab ne by simp
  have r2: "pdf_sanitize_filename (U ''a'' @ [0x09, 0x0A] @ U ''b'')
      = pdf_sanitize_filename (U ''a'' @ U ''b'')"
    using t2 h2 by blast
  have r3: "pdf_sanitize_filename ([0x20, 0x09, 0x20] @ U ''b'') = pdf_sanitize_filename (U ''b'')"
    using t1 h1 by blast
  have r4: "sanitize_filename (U ''a'' @ replicate 3 0x20 @ U ''b'') = U ''a'' @ replicate 3 0x5F @ U ''b''"
    using t1 h3 by blast
  have "U ''a'' @ replicate 3 0x5F @ U ''b'' = U ''a___b''"
    by (simp add: U_def numeral_3_eq_3)
  with r1 r2 r3 r4 ab sp show ?thesis by (simp add: U_def)
qed

text \<open>
  C3. Temporary-file cleanup: once the image renamer has created the temporary resized
  copy, the copy exists while the file is processed and is gone when
  \<^verbatim>\<open>_process_single_image\<close> is left, whatever the collaborators do afterwards (the image
  cannot be loaded, the model call fails, the rename fails or succeeds). In particular,
  when the model call fails the process exits with the copy removed.
\<close>

theorem temporary_file_removed:
  "(list_ex (endswith (lower (os_path_basename p))) supported_extensions \<and>
    create_resized_image fs w p = (Some t, fs1) \<longrightarrow>
      os_path_exists fs1 t \<and> \<not> os_path_exists (snd (process_single_image fs w p)) t) \<and>
   (list_ex (endswith (lower (os_path_basename p))) supported_extensions \<and>
    create_resized_image fs w p = (Some t, fs1) \<and> load_ok w \<and> reply w = None \<longrightarrow>
      process_single_image fs w p = (Exits 1, removeAll t fs1))"
proof (intro conjI impI)
  assume a: "list_ex (endswith (lower (os_path_basename p))) supported_extensions \<and>
    create_resized_image fs w p = (Some t, fs1)"
  then have c: "create_resized_image fs w p = (Some t, fs1)" by blast
  show "os_path_exists fs1 t" using c by (rule create_resized_image_Some)
  from a try_block_created obtain outcome fs2 where "try_block fs w p = (outcome, fs2, Some t)"
    by blast
  moreover have "t \<noteq> []" using c by (rule create_resized_image_Some)
  ultimately show "\<not> os_path_exists (snd (process_single_image fs w p)) t"
    by (rule finally_removes)
next
  assume "list_ex (endswith (lower (os_path_basename p))) supported_extensions \<and>
    create_resized_image fs w p = (Some t, fs1) \<and> load_ok w \<and> reply w = None"
  then show "process_single_image fs w p = (Exits 1, removeAll t fs1)"
    by (intro model_failure_exits) blast+
qed

theorem temporary_file_removed_witness:
  "list_ex (endswith (lower (os_path_basename (U ''d/a.png'')))) supported_extensions \<and>
   create_resized_image [U ''d/a.png'']
     \<lparr>reply = None, rename_permitted = True, resize_ok = True, load_ok = True\<rparr> (U ''d/a.png'')
     = (Some (U ''d/a.png.tmp''), [U ''d/a.png.tmp'', U ''d/a.png'']) \<and>
   os_path_exists [U ''d/a.png.tmp'', U ''d/a.png''] (U ''d/a.png.tmp'') \<and>
   process_single_image [U ''d/a.png'']
     \<lparr>reply = None, rename_permitted = True, resize_ok = True, load_ok = True\<rparr> (U ''d/a.png'')
     = (Exits 1, [U ''d/a.png'']) \<and>
   \<not> os_path_exists [U ''d/a.png''] (U ''d/a.png.tmp'')"
proof -
  let ?w = "\<lparr>reply = None, rename_permitted = True, resize_ok = True, load_ok = True\<rparr>"
  note t = temporary_file_removed [of "U ''d/a.png''" "[U ''d/a.png'']" ?w "U ''d/a.png.tmp''"
      "[U ''d/a.png.tmp'', U ''d/a.png'']"]
  have r1: "os_path_exists [U ''d/a.png.tmp'', U ''d/a.png''] (U ''d/a.png.tmp'')"
    using t supported_png created_example by blast
  have "process_single_image [U ''d/a.png''] ?w (U ''d/a.png'')
      = (Exits 1, removeAll (U ''d/a.png.tmp'') [U ''d/a.png.tmp'', U ''d/a.png''])"
    using t supported_png created_example by simp
  then have r2: "process_single_image [U ''d/a.png''] ?w (U ''d/a.png'') = (Exits 1, [U ''d/a.png''])"
    by (simp add: U_def)
  have r3: "\<not> os_path_exists (snd (process_single_image [U ''d/a.png''] ?w (U ''d/a.png''))) (U ''d/a.png.tmp'')"
    using t supported_png created_example by blast
  show ?thesis
    using supported_png created_example r1 r2 r3 by simp
qed

text \<open>
  C2. External-call failure handling. The claim holds for the PDF renamer (the file whose
  model call fails is reported and the next one is processed) and for the vision query
  (it exits), and fails for the image renamer: \<^verbatim>\<open>get_response\<close> answers a failed call
  with \<^verbatim>\<open>sys.exit(1)\<close>, which \<^verbatim>\<open>except Exception\<close> does not catch, so a failed call on
  the first of two images ends the batch and the second image is never processed.
\<close>

theorem model_failure_ends_image_batch:
  "rename_input [U ''d/a.png'', U ''d/b.png'']
     [(U ''d/a.png'', \<lparr>reply = None, rename_permitted = True, resize_ok = True, load_ok = True\<rparr>),
      (U ''d/b.png'', \<lparr>reply = Some (U ''dog''), rename_permitted = True, resize_ok = True, load_ok = True\<rparr>)]
     = ([Exits 1], [U ''d/a.png'', U ''d/b.png'']) \<and>
   rename_input [U ''d/a.png'', U ''d/b.png'']
     [(U ''d/a.png'', \<lparr>reply = Some (U ''cat''), rename_permitted = True, resize_ok = True, load_ok = True\<rparr>),
      (U ''d/b.png'', \<lparr>reply = Some (U ''dog''), rename_permitted = True, resize_ok = True, load_ok = True\<rparr>)]
     = ([Returned (Renamed (U ''cat.png'')), Returned (Renamed (U ''dog.png''))],
        [U ''d/dog.png'', U ''d/cat.png'']) \<and>
   run \<lparr>files = [U ''d/a.pdf'', U ''d/b.pdf''], prompts = []\<rparr> (U ''d'')
     [(U ''a.pdf'', \<lparr>reply = None, rename_permitted = True,
         document = Some \<lparr>metadata = None, pages = [Text (Some (U ''x''))]\<rparr>\<rparr>),
      (U ''b.pdf'', \<lparr>reply = Some (U ''T''), rename_permitted = True,
         document = Some \<lparr>metadata = None, pages = [Text (Some (U ''y''))]\<rparr>\<rparr>)]
     = ([NoTitle, RenamedTo (U ''T.pdf'')],
        \<lparr>files = [U ''d/T.pdf'', U ''d/a.pdf''],
         prompts = [prompt_header @ U ''x'', prompt_header @ U ''y'']\<rparr>) \<and>
   vision_main True None = Inl (SystemExit 1)"
  by (simp add: image_defs pdf_defs path_defs string_defs unique_filename.simps vision_main_def
      Let_def)

text \<open>
  C6. Empty sanitized title. The PDF renamer skips a file whose sanitized title is empty;
  the image renamer has no such test: a description that sanitizes to the empty string
  renames \<^verbatim>\<open>x.png\<close> to \<^verbatim>\<open>.png\<close>.
\<close>

theorem empty_description_still_renames:
  "sanitize_filename (U ''???'') = [] \<and>
   process_single_image [U ''d/x.png'']
     \<lparr>reply = Some (U ''???''), rename_permitted = True, resize_ok = True, load_ok = True\<rparr>
     (U ''d/x.png'') = (Returned (Renamed (U ''.png'')), [U ''d/.png'']) \<and>
   pdf_sanitize_filename (U ''???'') = [] \<and>
   process_file \<lparr>files = [U ''d/x.pdf''], prompts = []\<rparr>
     \<lparr>reply = None, rename_permitted = True,
      document = Some \<lparr>metadata = Some [U ''/Title'' \<mapsto> U ''???''], pages = []\<rparr>\<rparr>
     (U ''d/x.pdf'') = (EmptySanitizedTitle, \<lparr>files = [U ''d/x.pdf''], prompts = []\<rparr>)"
  by (simp add: image_defs pdf_defs path_defs string_defs unique_filename.simps Let_def)

text \<open>
  C5, as stated, fails: a PDF whose metadata title is non-empty but sanitizes to nothing
  (here the title \<^verbatim>\<open>?\<close>) is not renamed, although its first page has text and the model
  would answer.
\<close>

theorem title_not_used_counterexample:
  "os_path_exists [U ''d/x.pdf''] (U ''d/x.pdf'') \<and>
   get_pdf_metadata_title
     \<lparr>reply = Some (U ''Foo''), rename_permitted = True,
      document = Some \<lparr>metadata = Some [U ''/Title'' \<mapsto> U ''?''], pages = [Text (Some (U ''Foo''))]\<rparr>\<rparr>
     = Some (U ''?'') \<and>
   U ''?'' \<noteq> [] \<and>
   process_file \<lparr>files = [U ''d/x.pdf''], prompts = []\<rparr>
     \<lparr>reply = Some (U ''Foo''), rename_permitted = True,
      document = Some \<lparr>metadata = Some [U ''/Title'' \<mapsto> U ''?''], pages = [Text (Some (U ''Foo''))]\<rparr>\<rparr>
     (U ''d/x.pdf'')
     = (EmptySanitizedTitle, \<lparr>files = [U ''d/x.pdf''], prompts = []\<rparr>)"
  by (simp add: pdf_defs path_defs string_defs unique_filename.simps Let_def)

text \<open>
  C5, amended. For every existing PDF whose metadata holds a non-empty title, the model
  is never invoked; if the sanitized title is non-empty and the operating system permits
  the rename, the file is renamed to the sanitized title plus its extension (with the
  first free numeric suffix when that name is taken), and if the sanitized title is empty
  the file is left unrenamed. The model is asked only when the metadata title is absent
  or empty, and then, when the extracted text has a non-blank character, exactly once.
\<close>

theorem metadata_title_precedence:
  fixes s :: state and w :: pdf_world and p t :: ustring
  defines "dir \<equiv> fst (os_path_split p)"
    and "ext \<equiv> snd (os_path_splitext (snd (os_path_split p)))"
    and "san \<equiv> pdf_sanitize_filename t"
  shows
  "(os_path_exists (files s) p \<and> get_pdf_metadata_title w = Some t \<and> t \<noteq> [] \<longrightarrow>
      prompts (snd (process_file s w p)) = prompts s \<and>
      (san = [] \<longrightarrow> process_file s w p = (EmptySanitizedTitle, s)) \<and>
      (san \<noteq> [] \<and> rename_permitted w \<longrightarrow>
         fst (process_file s w p) = RenamedTo (unique_filename (files s) dir san ext (san @ ext) 1) \<and>
         os_path_exists (files (snd (process_file s w p)))
           (os_path_join dir (unique_filename (files s) dir san ext (san @ ext) 1)) \<and>
         \<not> os_path_exists (files (snd (process_file s w p))) p) \<and>
      (san \<noteq> [] \<and> rename_permitted w \<and> \<not> os_path_exists (files s) (os_path_join dir (san @ ext)) \<longrightarrow>
         fst (process_file s w p) = RenamedTo (san @ ext))) \<and>
   (prompts (snd (process_file s w p)) \<noteq> prompts s \<longrightarrow>
      get_pdf_metadata_title w = None \<or> get_pdf_metadata_title w = Some []) \<and>
   (os_path_exists (files s) p \<and>
    (get_pdf_metadata_title w = None \<or> get_pdf_metadata_title w = Some []) \<and>
    strip (get_first_page_text w 2) \<noteq> [] \<longrightarrow>
      prompts (snd (process_file s w p))
        = prompts s @ [prompt_header @ take 2000 (get_first_page_text w 2)])"
proof (intro conjI impI)
  let ?n = "unique_filename (files s) dir san ext (san @ ext) 1"
  assume a: "os_path_exists (files s) p \<and> get_pdf_metadata_title w = Some t \<and> t \<noteq> []"
  then have pf: "process_file s w p = rename_to_title s w p dir ext (Some t)"
    unfolding dir_def ext_def by (intro process_file_metadata) blast+
  show "prompts (snd (process_file s w p)) = prompts s"
    by (simp add: pf rename_to_title_prompts)
  show "process_file s w p = (EmptySanitizedTitle, s)" if "san = []"
    using a that by (simp add: pf san_def rename_to_title_empty)
  have renamed: "process_file s w p
      = (RenamedTo ?n, s\<lparr>files := List.insert (os_path_join dir ?n) (removeAll p (files s))\<rparr>)"
    if "san \<noteq> [] \<and> rename_permitted w"
    using a that rename_to_title_Some [of s p t w dir ext] by (simp add: pf san_def)
  have free: "\<not> os_path_exists (files s) (os_path_join dir ?n)"
    by (rule unique_filename_free)
  show "fst (process_file s w p) = RenamedTo ?n" if "san \<noteq> [] \<and> rename_permitted w"
    using renamed [OF that] by simp
  show "os_path_exists (files (snd (process_file s w p))) (os_path_join dir ?n)"
    if "san \<noteq> [] \<and> rename_permitted w"
    using renamed [OF that] by (simp add: os_path_exists_def)
  show "\<not> os_path_exists (files (snd (process_file s w p))) p"
    if "san \<noteq> [] \<and> rename_permitted w"
    using renamed [OF that] free a by (auto simp: os_path_exists_def)
  show "fst (process_file s w p) = RenamedTo (san @ ext)"
    if h: "san \<noteq> [] \<and> rename_permitted w \<and> \<not> os_path_exists (files s) (os_path_join dir (san @ ext))"
  proof -
    from h have "?n = san @ ext" by (intro unique_filename_unused) blast
    with renamed h show ?thesis by simp
  qed
next
  assume "prompts (snd (process_file s w p)) \<noteq> prompts s"
  with process_file_prompts_metadata [of w s p]
  show "get_pdf_metadata_title w = None \<or> get_pdf_metadata_title w = Some []" by blast
next
  assume a: "os_path_exists (files s) p \<and>
    (get_pdf_metadata_title w = None \<or> get_pdf_metadata_title w = Some []) \<and>
    strip (get_first_page_text w 2) \<noteq> []"
  then have "process_file s w p =
     rename_to_title (s\<lparr>prompts := prompts s @ [prompt_header @ take 2000 (get_first_page_text w 2)]\<rparr>)
       w p (fst (os_path_split p)) (snd (os_path_splitext (snd (os_path_split p))))
       (map_option strip (reply w))"
    by (intro process_file_model) blast+
  then show "prompts (snd (process_file s w p))
        = prompts s @ [prompt_header @ take 2000 (get_first_page_text w 2)]"
    by (simp add: rename_to_title_prompts)
qed

theorem metadata_title_precedence_witness:
  "os_path_exists (files \<lparr>files = [U ''d/x.pdf''], prompts = []\<rparr>) (U ''d/x.pdf'') \<and>
   get_pdf_metadata_title
     \<lparr>reply = None, rename_permitted = True,
      document = Some \<lparr>metadata = Some [U ''/Title'' \<mapsto> U ''Foo''], pages = []\<rparr>\<rparr>
     = Some (U ''Foo'') \<and>
   \<not> os_path_exists [U ''d/x.pdf''] (U ''d/Foo.pdf'') \<and>
   fst (process_file \<lparr>files = [U ''d/x.pdf''], prompts = []\<rparr>
     \<lparr>reply = None, rename_permitted = True,
      document = Some \<lparr>metadata = Some [U ''/Title'' \<mapsto> U ''Foo''], pages = []\<rparr>\<rparr>
     (U ''d/x.pdf'')) = RenamedTo (U ''Foo.pdf'') \<and>
   prompts (snd (process_file \<lparr>files = [U ''d/x.pdf''], prompts = []\<rparr>
     \<lparr>reply = None, rename_permitted = True,
      document = Some \<lparr>metadata = Some [U ''/Title'' \<mapsto> U ''Foo''], pages = []\<rparr>\<rparr>
     (U ''d/x.pdf''))) = [] \<and>
   pdf_sanitize_filename (U ''?'') = [] \<and>
   process_file \<lparr>files = [U ''d/x.pdf''], prompts = []\<rparr>
     \<lparr>reply = None, rename_permitted = True,
      document = Some \<lparr>metadata = Some [U ''/Title'' \<mapsto> U ''?''], pages = []\<rparr>\<rparr>
     (U ''d/x.pdf'') = (EmptySanitizedTitle, \<lparr>files = [U ''d/x.pdf''], prompts = []\<rparr>) \<and>
   get_pdf_metadata_title
     \<lparr>reply = Some (U ''T''), rename_permitted = True,
      document = Some \<lparr>metadata = None, pages = [Text (Some (U ''Hello''))]\<rparr>\<rparr> = None \<and>
   prompts (snd (process_file \<lparr>files = [U ''d/x.pdf''], prompts = []\<rparr>
     \<lparr>reply = Some (U ''T''), rename_permitted = True,
      document = Some \<lparr>metadata = None, pages = [Text (Some (U ''Hello''))]\<rparr>\<rparr>
     (U ''d/x.pdf''))) = [prompt_header @ U ''Hello'']"
proof -
  let ?s = "\<lparr>files = [U ''d/x.pdf''], prompts = []\<rparr>"
  let ?wA = "\<lparr>reply = None, rename_permitted = True,
      document = Some \<lparr>metadata = Some [U ''/Title'' \<mapsto> U ''Foo''], pages = []\<rparr>\<rparr>"
  let ?wC = "\<lparr>reply = Some (U ''T''), rename_permitted = True,
      document = Some \<lparr>metadata = None, pages = [Text (Some (U ''Hello''))]\<rparr>\<rparr>"
  have ex: "os_path_exists (files ?s) (U ''d/x.pdf'')"
    and free: "\<not> os_path_exists (files ?s) (os_path_join (U ''d'') (U ''Foo'' @ U ''.pdf''))"
    and ne: "U ''Foo'' \<noteq> []" "rename_permitted ?wA"
    and q: "pdf_sanitize_filename (U ''?'') = []"
    by (simp_all add: pdf_defs path_defs string_defs)
  let ?wB = "\<lparr>reply = None, rename_permitted = True,
      document = Some \<lparr>metadata = Some [U ''/Title'' \<mapsto> U ''?''], pages = []\<rparr>\<rparr>"
  have tB: "get_pdf_metadata_title ?wB = Some (U ''?'')" "U ''?'' \<noteq> []"
    by (simp_all add: pdf_defs string_defs)
  note B = metadata_title_precedence [of ?s "U ''d/x.pdf''" ?wB "U ''?''"]
  have r0: "process_file ?s ?wB (U ''d/x.pdf'') = (EmptySanitizedTitle, ?s)"
    using B ex tB q by blast
  have hello: "U ''Hello'' \<noteq> []" by (simp add: U_def)
  note A = metadata_title_precedence [of ?s "U ''d/x.pdf''" ?wA "U ''Foo''", unfolded titled_example]
  note C = metadata_title_precedence [of ?s "U ''d/x.pdf''" ?wC "U ''Foo''", unfolded untitled_example]
  have r1: "fst (process_file ?s ?wA (U ''d/x.pdf'')) = RenamedTo (U ''Foo'' @ U ''.pdf'')"
    using A ex free ne by blast
  have r2: "prompts (snd (process_file ?s ?wA (U ''d/x.pdf''))) = prompts ?s"
    using A ex ne by blast
  have r3: "prompts (snd (process_file ?s ?wC (U ''d/x.pdf'')))
      = prompts ?s @ [prompt_header @ take 2000 (U ''Hello'')]"
    using C ex hello by blast
  have "take 2000 (U ''Hello'') = U ''Hello''" by (simp add: U_def)
  with r0 r1 r2 r3 ex free q titled_example(1) untitled_example(1) show ?thesis
    by (simp add: U_def os_path_exists_def)
qed

text \<open>
  C9, as stated, fails: when the file's own name and the name with suffix \<open>_1\<close> both
  exist, the file is renamed with suffix \<open>_2\<close>, not \<open>_1\<close>.
\<close>

theorem suffix_one_counterexample:
  "os_path_join (fst (os_path_split (U ''d/Foo.pdf'')))
     (pdf_sanitize_filename (U ''Foo'') @ snd (os_path_splitext (snd (os_path_split (U ''d/Foo.pdf'')))))
     = U ''d/Foo.pdf'' \<and>
   process_file \<lparr>files = [U ''d/Foo.pdf'', U ''d/Foo_1.pdf''], prompts = []\<rparr>
     \<lparr>reply = None, rename_permitted = True,
      document = Some \<lparr>metadata = Some [U ''/Title'' \<mapsto> U ''Foo''], pages = []\<rparr>\<rparr>
     (U ''d/Foo.pdf'')
     = (RenamedTo (U ''Foo_2.pdf''), \<lparr>files = [U ''d/Foo_2.pdf'', U ''d/Foo_1.pdf''], prompts = []\<rparr>) \<and>
   os_path_join (os_path_dirname (U ''d/cat.png''))
     (sanitize_filename (U ''cat'') @ snd (os_path_splitext (os_path_basename (U ''d/cat.png''))))
     = U ''d/cat.png'' \<and>
   process_single_image [U ''d/cat.png'', U ''d/cat_1.png'']
     \<lparr>reply = Some (U ''cat''), rename_permitted = True, resize_ok = True, load_ok = True\<rparr>
     (U ''d/cat.png'')
     = (Returned (Renamed (U ''cat_2.png'')), [U ''d/cat_2.png'', U ''d/cat_1.png''])"
  by (simp add: image_defs pdf_defs path_defs string_defs unique_filename.simps str.simps Let_def)

text \<open>
  C9, amended. The collision check treats the file being renamed as an existing entry:
  whenever the sanitized title plus extension is the file's own current name, the name
  chosen is never that name but the one with the first numeric suffix \<open>k \<ge> 1\<close> at which
  \<^verbatim>\<open>os.path.exists\<close> reports no entry, every smaller suffix being taken; it is \<open>_1\<close>
  unless that name exists too. The file is renamed to it, unless the operating system
  refuses the rename: then the error is reported and the file stays. This holds for the
  PDF renamer, whichever way it found the title, and for the image renamer, where the
  names tested are those existing while the temporary copy is there. The file's own
  entry is the one under the path recomposed from its directory and its name, which is
  the given path unless that has a doubled slash. The PDF renamer's branch that skips
  the rename because the target equals the source is never taken.
\<close>

theorem self_collision:
  fixes s :: state and w :: pdf_world and iw :: image_world and fs fs1 :: filesystem
    and p t q d tmp :: ustring
  defines "dir \<equiv> fst (os_path_split p)"
    and "name \<equiv> snd (os_path_split p)"
    and "ext \<equiv> snd (os_path_splitext (snd (os_path_split p)))"
    and "san \<equiv> pdf_sanitize_filename t"
    and "idir \<equiv> os_path_dirname q"
    and "iname \<equiv> os_path_basename q"
    and "iext \<equiv> snd (os_path_splitext (os_path_basename q))"
    and "desc \<equiv> sanitize_filename d"
  shows
  "(os_path_exists (files s) p \<and> t \<noteq> [] \<and>
    (get_pdf_metadata_title w = Some t \<or>
     ((get_pdf_metadata_title w = None \<or> get_pdf_metadata_title w = Some []) \<and>
      strip (get_first_page_text w 2) \<noteq> [] \<and> map_option strip (reply w) = Some t)) \<and>
    san \<noteq> [] \<and> san @ ext = name \<and> os_path_exists (files s) (os_path_join dir name) \<longrightarrow>
      (\<exists>k\<ge>1.
         \<not> os_path_exists (files s) (os_path_join dir (san @ U ''_'' @ str k @ ext)) \<and>
         (\<forall>j. 1 \<le> j \<and> j < k \<longrightarrow>
            os_path_exists (files s) (os_path_join dir (san @ U ''_'' @ str j @ ext))) \<and>
         (rename_permitted w \<longrightarrow>
            fst (process_file s w p) = RenamedTo (san @ U ''_'' @ str k @ ext) \<and>
            \<not> os_path_exists (files (snd (process_file s w p))) p \<and>
            os_path_exists (files (snd (process_file s w p)))
              (os_path_join dir (san @ U ''_'' @ str k @ ext))) \<and>
         (\<not> rename_permitted w \<longrightarrow>
            fst (process_file s w p) = RenameError \<and>
            files (snd (process_file s w p)) = files s)) \<and>
      (rename_permitted w \<and>
       \<not> os_path_exists (files s) (os_path_join dir (san @ U ''_1'' @ ext)) \<longrightarrow>
         fst (process_file s w p) = RenamedTo (san @ U ''_1'' @ ext))) \<and>
   fst (process_file s w p) \<noteq> AlreadyNamed \<and>
   (list_ex (endswith (lower (os_path_basename q))) supported_extensions \<and>
    create_resized_image fs iw q = (Some tmp, fs1) \<and> load_ok iw \<and> reply iw = Some d \<and>
    desc @ iext = iname \<and> os_path_exists fs (os_path_join idir iname) \<longrightarrow>
      (\<exists>k\<ge>1.
         \<not> os_path_exists fs1 (os_path_join idir (desc @ U ''_'' @ str k @ iext)) \<and>
         (\<forall>j. 1 \<le> j \<and> j < k \<longrightarrow>
            os_path_exists fs1 (os_path_join idir (desc @ U ''_'' @ str j @ iext))) \<and>
         (rename_permitted iw \<longrightarrow>
            fst (process_single_image fs iw q) = Returned (Renamed (desc @ U ''_'' @ str k @ iext)) \<and>
            \<not> os_path_exists (snd (process_single_image fs iw q)) q \<and>
            os_path_exists (snd (process_single_image fs iw q))
              (os_path_join idir (desc @ U ''_'' @ str k @ iext))) \<and>
         (\<not> rename_permitted iw \<longrightarrow>
            fst (process_single_image fs iw q) = CouldNotProcess \<and>
            os_path_exists (snd (process_single_image fs iw q)) q)) \<and>
      (rename_permitted iw \<and>
       \<not> os_path_exists fs1 (os_path_join idir (desc @ U ''_1'' @ iext)) \<longrightarrow>
         fst (process_single_image fs iw q) = Returned (Renamed (desc @ U ''_1'' @ iext))))"
proof (intro conjI impI)
  assume a: "os_path_exists (files s) p \<and> t \<noteq> [] \<and>
    (get_pdf_metadata_title w = Some t \<or>
     ((get_pdf_metadata_title w = None \<or> get_pdf_metadata_title w = Some []) \<and>
      strip (get_first_page_text w 2) \<noteq> [] \<and> map_option strip (reply w) = Some t)) \<and>
    san \<noteq> [] \<and> san @ ext = name \<and> os_path_exists (files s) (os_path_join dir name)"
  then obtain sent where pf: "process_file s w p = rename_to_title (s\<lparr>prompts := sent\<rparr>) w p dir ext (Some t)"
    unfolding dir_def ext_def using process_file_title [of s p t w] by blast
  have e: "os_path_exists (files (s\<lparr>prompts := sent\<rparr>)) p"
    and own: "os_path_exists (files (s\<lparr>prompts := sent\<rparr>)) (os_path_join dir (pdf_sanitize_filename t @ ext))"
    using a by (simp_all add: san_def)
  from a have t: "t \<noteq> []" "pdf_sanitize_filename t \<noteq> []" by (simp_all add: san_def)
  from pdf_self_collision [OF e t own, of w]
  show ex: "\<exists>k\<ge>1.
         \<not> os_path_exists (files s) (os_path_join dir (san @ U ''_'' @ str k @ ext)) \<and>
         (\<forall>j. 1 \<le> j \<and> j < k \<longrightarrow>
            os_path_exists (files s) (os_path_join dir (san @ U ''_'' @ str j @ ext))) \<and>
         (rename_permitted w \<longrightarrow>
            fst (process_file s w p) = RenamedTo (san @ U ''_'' @ str k @ ext) \<and>
            \<not> os_path_exists (files (snd (process_file s w p))) p \<and>
            os_path_exists (files (snd (process_file s w p)))
              (os_path_join dir (san @ U ''_'' @ str k @ ext))) \<and>
         (\<not> rename_permitted w \<longrightarrow>
            fst (process_file s w p) = RenameError \<and>
            files (snd (process_file s w p)) = files s)"
    by (simp add: pf san_def)
  show "fst (process_file s w p) = RenamedTo (san @ U ''_1'' @ ext)"
    if h: "rename_permitted w \<and> \<not> os_path_exists (files s) (os_path_join dir (san @ U ''_1'' @ ext))"
  proof -
    from ex h obtain k where k: "1 \<le> k"
      "fst (process_file s w p) = RenamedTo (san @ U ''_'' @ str k @ ext)"
      "\<forall>j. 1 \<le> j \<and> j < k \<longrightarrow> os_path_exists (files s) (os_path_join dir (san @ U ''_'' @ str j @ ext))"
      by blast
    from h have "\<not> os_path_exists (files s) (os_path_join dir (san @ U ''_1'' @ ext))" by blast
    from first_suffix [OF k(1,3) this] k(2) show ?thesis by simp
  qed
next
  show "fst (process_file s w p) \<noteq> AlreadyNamed" by (rule process_file_not_kept)
next
  assume a: "list_ex (endswith (lower (os_path_basename q))) supported_extensions \<and>
    create_resized_image fs iw q = (Some tmp, fs1) \<and> load_ok iw \<and> reply iw = Some d \<and>
    desc @ iext = iname \<and> os_path_exists fs (os_path_join idir iname)"
  then have own: "os_path_exists fs (os_path_join (os_path_dirname q)
      (sanitize_filename d @ snd (os_path_splitext (os_path_basename q))))"
    by (simp add: desc_def iext_def iname_def idir_def)
  from a have "list_ex (endswith (lower (os_path_basename q))) supported_extensions"
    and "create_resized_image fs iw q = (Some tmp, fs1)" and "load_ok iw" and "reply iw = Some d"
    by blast+
  from image_self_collision [OF this own]
  show ex: "\<exists>k\<ge>1.
         \<not> os_path_exists fs1 (os_path_join idir (desc @ U ''_'' @ str k @ iext)) \<and>
         (\<forall>j. 1 \<le> j \<and> j < k \<longrightarrow>
            os_path_exists fs1 (os_path_join idir (desc @ U ''_'' @ str j @ iext))) \<and>
         (rename_permitted iw \<longrightarrow>
            fst (process_single_image fs iw q) = Returned (Renamed (desc @ U ''_'' @ str k @ iext)) \<and>
            \<not> os_path_exists (snd (process_single_image fs iw q)) q \<and>
            os_path_exists (snd (process_single_image fs iw q))
              (os_path_join idir (desc @ U ''_'' @ str k @ iext))) \<and>
         (\<not> rename_permitted iw \<longrightarrow>
            fst (process_single_image fs iw q) = CouldNotProcess \<and>
            os_path_exists (snd (process_single_image fs iw q)) q)"
    by (simp add: desc_def iext_def idir_def)
  show "fst (process_single_image fs iw q) = Returned (Renamed (desc @ U ''_1'' @ iext))"
    if h: "rename_permitted iw \<and> \<not> os_path_exists fs1 (os_path_join idir (desc @ U ''_1'' @ iext))"
  proof -
    from ex h obtain k where k: "1 \<le> k"
      "fst (process_single_image fs iw q) = Returned (Renamed (desc @ U ''_'' @ str k @ iext))"
      "\<forall>j. 1 \<le> j \<and> j < k \<longrightarrow> os_path_exists fs1 (os_path_join idir (desc @ U ''_'' @ str j @ iext))"
      by blast
    from h have "\<not> os_path_exists fs1 (os_path_join idir (desc @ U ''_1'' @ iext))" by blast
    from first_suffix [OF k(1,3) this] k(2) show ?thesis by simp
  qed
qed

theorem self_collision_witness:
  "os_path_exists [U ''d/Foo.pdf''] (U ''d/Foo.pdf'') \<and>
   get_pdf_metadata_title
     \<lparr>reply = None, rename_permitted = True,
      document = Some \<lparr>metadata = Some [U ''/Title'' \<mapsto> U ''Foo''], pages = []\<rparr>\<rparr>
     = Some (U ''Foo'') \<and>
   pdf_sanitize_filename (U ''Foo'') @ snd (os_path_splitext (snd (os_path_split (U ''d/Foo.pdf''))))
     = snd (os_path_split (U ''d/Foo.pdf'')) \<and>
   fst (process_file \<lparr>files = [U ''d/Foo.pdf''], prompts = []\<rparr>
     \<lparr>reply = None, rename_permitted = True,
      document = Some \<lparr>metadata = Some [U ''/Title'' \<mapsto> U ''Foo''], pages = []\<rparr>\<rparr>
     (U ''d/Foo.pdf'')) = RenamedTo (U ''Foo_1.pdf'') \<and>
   fst (process_file \<lparr>files = [U ''d/Foo.pdf''], prompts = []\<rparr>
     \<lparr>reply = None, rename_permitted = False,
      document = Some \<lparr>metadata = Some [U ''/Title'' \<mapsto> U ''Foo''], pages = []\<rparr>\<rparr>
     (U ''d/Foo.pdf'')) = RenameError \<and>
   create_resized_image [U ''d//cat.png'', U ''d/cat.png'']
     \<lparr>reply = Some (U ''cat''), rename_permitted = True, resize_ok = True, load_ok = True\<rparr>
     (U ''d//cat.png'')
     = (Some (U ''d/cat.png.tmp''), [U ''d/cat.png.tmp'', U ''d//cat.png'', U ''d/cat.png'']) \<and>
   sanitize_filename (U ''cat'') @ snd (os_path_splitext (os_path_basename (U ''d//cat.png'')))
     = os_path_basename (U ''d//cat.png'') \<and>
   os_path_exists [U ''d//cat.png'', U ''d/cat.png'']
     (os_path_join (os_path_dirname (U ''d//cat.png'')) (os_path_basename (U ''d//cat.png''))) \<and>
   fst (process_single_image [U ''d//cat.png'', U ''d/cat.png'']
     \<lparr>reply = Some (U ''cat''), rename_permitted = True, resize_ok = True, load_ok = True\<rparr>
     (U ''d//cat.png'')) = Returned (Renamed (U ''cat_1.png'')) \<and>
   fst (process_single_image [U ''d//cat.png'', U ''d/cat.png'']
     \<lparr>reply = Some (U ''cat''), rename_permitted = False, resize_ok = True, load_ok = True\<rparr>
     (U ''d//cat.png'')) = CouldNotProcess"
proof -
  let ?s = "\<lparr>files = [U ''d/Foo.pdf''], prompts = []\<rparr>"
  let ?w = "\<lparr>reply = None, rename_permitted = True,
      document = Some \<lparr>metadata = Some [U ''/Title'' \<mapsto> U ''Foo''], pages = []\<rparr>\<rparr>"
  let ?wn = "\<lparr>reply = None, rename_permitted = False,
      document = Some \<lparr>metadata = Some [U ''/Title'' \<mapsto> U ''Foo''], pages = []\<rparr>\<rparr>"
  let ?iw = "\<lparr>reply = Some (U ''cat''), rename_permitted = True, resize_ok = True, load_ok = True\<rparr>"
  let ?iwn = "\<lparr>reply = Some (U ''cat''), rename_permitted = False, resize_ok = True, load_ok = True\<rparr>"
  let ?p = "U ''d/Foo.pdf''" and ?q = "U ''d//cat.png''"
  let ?dir = "fst (os_path_split ?p)" and ?name = "snd (os_path_split ?p)"
  let ?ext = "snd (os_path_splitext (snd (os_path_split ?p)))"
  let ?idir = "os_path_dirname ?q" and ?iname = "os_path_basename ?q"
  let ?iext = "snd (os_path_splitext (os_path_basename ?q))"
  let ?fs = "[U ''d//cat.png'', U ''d/cat.png'']"
  let ?fs1 = "[U ''d/cat.png.tmp'', U ''d//cat.png'', U ''d/cat.png'']"
  have h1: "os_path_exists (files ?s) ?p" "U ''Foo'' \<noteq> []"
    "get_pdf_metadata_title ?w = Some (U ''Foo'')" "get_pdf_metadata_title ?wn = Some (U ''Foo'')"
    "pdf_sanitize_filename (U ''Foo'') \<noteq> []"
    "rename_permitted ?w" "\<not> rename_permitted ?wn"
    by (simp_all add: pdf_defs path_defs string_defs)
  have h2: "pdf_sanitize_filename (U ''Foo'') @ ?ext = ?name"
    "os_path_exists (files ?s) (os_path_join ?dir ?name)"
    by (simp_all add: pdf_defs path_defs string_defs)
  have h3: "\<not> os_path_exists (files ?s) (os_path_join ?dir (pdf_sanitize_filename (U ''Foo'') @ U ''_1'' @ ?ext))"
    by (simp add: pdf_defs path_defs string_defs)
  have n1: "pdf_sanitize_filename (U ''Foo'') @ U ''_1'' @ ?ext = U ''Foo_1.pdf''"
    by (simp add: pdf_defs path_defs string_defs)
  have i1: "list_ex (endswith (lower (os_path_basename ?q))) supported_extensions"
    "load_ok ?iw" "reply ?iw = Some (U ''cat'')" "rename_permitted ?iw"
    "load_ok ?iwn" "reply ?iwn = Some (U ''cat'')" "\<not> rename_permitted ?iwn"
    by (simp_all add: path_defs string_defs supported_extensions_def)
  have i2: "create_resized_image ?fs ?iw ?q = (Some (U ''d/cat.png.tmp''), ?fs1)"
    "create_resized_image ?fs ?iwn ?q = (Some (U ''d/cat.png.tmp''), ?fs1)"
    by (simp_all add: create_resized_image_def path_defs string_defs Let_def)
  have i3: "sanitize_filename (U ''cat'') @ ?iext = ?iname"
    "os_path_exists ?fs (os_path_join ?idir ?iname)"
    by (simp_all add: image_defs path_defs string_defs)
  have i4: "\<not> os_path_exists ?fs1 (os_path_join ?idir (sanitize_filename (U ''cat'') @ U ''_1'' @ ?iext))"
    by (simp add: image_defs path_defs string_defs)
  have n2: "sanitize_filename (U ''cat'') @ U ''_1'' @ ?iext = U ''cat_1.png''"
    by (simp add: image_defs path_defs string_defs)
  note T = self_collision [where s = ?s and p = ?p and t = "U ''Foo''" and w = ?w and q = ?q
      and fs = "?fs" and iw = ?iw and tmp = "U ''d/cat.png.tmp''" and ?fs1.0 = "?fs1" and d = "U ''cat''"]
  note N = self_collision [where s = ?s and p = ?p and t = "U ''Foo''" and w = ?wn and q = ?q
      and fs = "?fs" and iw = ?iwn and tmp = "U ''d/cat.png.tmp''" and ?fs1.0 = "?fs1" and d = "U ''cat''"]
  have r1: "fst (process_file ?s ?w ?p) = RenamedTo (pdf_sanitize_filename (U ''Foo'') @ U ''_1'' @ ?ext)"
    using T h1 h2 h3 by blast
  have r2: "fst (process_file ?s ?wn ?p) = RenameError"
    using N h1 h2 by blast
  have r3: "fst (process_single_image ?fs ?iw ?q)
      = Returned (Renamed (sanitize_filename (U ''cat'') @ U ''_1'' @ ?iext))"
    using T i1 i2 i3 i4 by blast
  have r4: "fst (process_single_image ?fs ?iwn ?q) = CouldNotProcess"
    using N i1 i2 i3 by blast
  show ?thesis
    using h1(1,3) h2(1) i2(1) i3 r1 r2 r3 r4 unfolding n1 n2 by simp
qed

text \<open>
  C10. PDF model-input bounds: the extracted text depends on the first two pages only
  (fewer when the document is shorter) and is the concatenation of their texts, a missing
  text counting as empty; the prompt sent to the model is the fixed header followed by
  the first 2000 characters of the text; a text that is all whitespace yields no title
  and no model call, and the file is left as it is.
\<close>

theorem model_input_bounds:
  "(document w = Some doc \<and> document w' = Some doc' \<and> take 2 (pages doc) = take 2 (pages doc') \<longrightarrow>
      get_first_page_text w 2 = get_first_page_text w' 2) \<and>
   (document w = Some doc \<and> (\<forall>pg \<in> set (take 2 (pages doc)). pg \<noteq> Raises) \<longrightarrow>
      get_first_page_text w 2
        = concat (map (\<lambda>pg. case pg of Text (Some x) \<Rightarrow> x | _ \<Rightarrow> []) (take 2 (pages doc)))) \<and>
   (strip text \<noteq> [] \<longrightarrow>
      snd (get_title_from_gemini sent w text) = sent @ [prompt_header @ take 2000 text] \<and>
      length (prompt_header @ take 2000 text) \<le> length prompt_header + 2000) \<and>
   (strip text = [] \<longrightarrow> get_title_from_gemini sent w text = (None, sent)) \<and>
   (os_path_exists (files s) p \<and>
    (get_pdf_metadata_title w = None \<or> get_pdf_metadata_title w = Some []) \<and>
    strip (get_first_page_text w 2) = [] \<longrightarrow>
      (fst (process_file s w p) = NoText \<or> fst (process_file s w p) = NoTitle) \<and>
      snd (process_file s w p) = s)"
proof (intro conjI impI)
  show "get_first_page_text w 2 = get_first_page_text w' 2"
    if "document w = Some doc \<and> document w' = Some doc' \<and> take 2 (pages doc) = take 2 (pages doc')"
    using that by (simp add: get_first_page_text_eq)
  show "get_first_page_text w 2
        = concat (map (\<lambda>pg. case pg of Text (Some x) \<Rightarrow> x | _ \<Rightarrow> []) (take 2 (pages doc)))"
    if "document w = Some doc \<and> (\<forall>pg \<in> set (take 2 (pages doc)). pg \<noteq> Raises)"
  proof -
    from that have "Raises \<notin> set (take 2 (pages doc))" by blast
    with that show ?thesis by (simp add: get_first_page_text_eq read_pages_eq)
  qed
  show "snd (get_title_from_gemini sent w text) = sent @ [prompt_header @ take 2000 text]"
    if "strip text \<noteq> []"
    using that by (simp add: get_title_from_gemini_def Let_def split: option.splits)
  show "length (prompt_header @ take 2000 text) \<le> length prompt_header + 2000"
    by simp
  show "get_title_from_gemini sent w text = (None, sent)" if "strip text = []"
    using that by (simp add: get_title_from_gemini_def)
  assume a: "os_path_exists (files s) p \<and>
    (get_pdf_metadata_title w = None \<or> get_pdf_metadata_title w = Some []) \<and>
    strip (get_first_page_text w 2) = []"
  then have pf: "process_file s w p = (if get_first_page_text w 2 = [] then NoText else NoTitle, s)"
    by (intro process_file_blank_text) blast+
  show "fst (process_file s w p) = NoText \<or> fst (process_file s w p) = NoTitle"
    by (simp add: pf)
  show "snd (process_file s w p) = s"
    by (simp add: pf)
qed

theorem model_input_bounds_witness:
  "take 2 [Text None, Text (Some (U ''Title'')), Text (Some (U ''more''))]
     = take 2 [Text None, Text (Some (U ''Title''))] \<and>
   get_first_page_text
     \<lparr>reply = None, rename_permitted = True,
      document = Some \<lparr>metadata = None,
        pages = [Text None, Text (Some (U ''Title'')), Text (Some (U ''more''))]\<rparr>\<rparr> 2
     = U ''Title'' \<and>
   get_first_page_text
     \<lparr>reply = None, rename_permitted = True,
      document = Some \<lparr>metadata = None, pages = [Text None, Text (Some (U ''Title''))]\<rparr>\<rparr> 2
     = U ''Title'' \<and>
   strip (U ''Title'') \<noteq> [] \<and>
   snd (get_title_from_gemini []
     \<lparr>reply = None, rename_permitted = True,
      document = Some \<lparr>metadata = None, pages = [Text None, Text (Some (U ''Title''))]\<rparr>\<rparr>
     (U ''Title'')) = [prompt_header @ U ''Title''] \<and>
   strip (U ''  '') = [] \<and>
   get_title_from_gemini []
     \<lparr>reply = None, rename_permitted = True,
      document = Some \<lparr>metadata = None, pages = [Text (Some (U ''  ''))]\<rparr>\<rparr>
     (U ''  '') = (None, []) \<and>
   process_file \<lparr>files = [U ''d/x.pdf''], prompts = []\<rparr>
     \<lparr>reply = None, rename_permitted = True,
      document = Some \<lparr>metadata = None, pages = [Text (Some (U ''  ''))]\<rparr>\<rparr>
     (U ''d/x.pdf'') = (NoTitle, \<lparr>files = [U ''d/x.pdf''], prompts = []\<rparr>)"
proof -
  let ?d3 = "\<lparr>metadata = None, pages = [Text None, Text (Some (U ''Title'')), Text (Some (U ''more''))]\<rparr>"
  let ?d2 = "\<lparr>metadata = None, pages = [Text None, Text (Some (U ''Title''))]\<rparr>"
  let ?db = "\<lparr>metadata = None, pages = [Text (Some (U ''  ''))]\<rparr>"
  let ?w3 = "\<lparr>reply = None, rename_permitted = True, document = Some ?d3\<rparr>"
  let ?w2 = "\<lparr>reply = None, rename_permitted = True, document = Some ?d2\<rparr>"
  let ?wb = "\<lparr>reply = None, rename_permitted = True, document = Some ?db\<rparr>"
  let ?s = "\<lparr>files = [U ''d/x.pdf''], prompts = []\<rparr>"
  have tk: "take 2 (pages ?d3) = take 2 (pages ?d2)" by simp
  have nr: "\<forall>pg \<in> set (take 2 (pages ?d2)). pg \<noteq> Raises" by simp
  have st: "strip (U ''Title'') \<noteq> []" "strip (U ''  '') = []"
    by (simp_all add: string_defs)
  have ex: "os_path_exists (files ?s) (U ''d/x.pdf'')" "get_pdf_metadata_title ?wb = None"
    by (simp_all add: os_path_exists_def get_pdf_metadata_title_def)
  have bl: "get_first_page_text ?wb 2 = U ''  ''"
    by (simp add: get_first_page_text_def)
  note A = model_input_bounds [of ?w3 ?d3 ?w2 ?d2 "U ''Title''" "[]" ?s "U ''d/x.pdf''"]
  note B = model_input_bounds [of ?w2 ?d2 ?w2 ?d2 "U ''Title''" "[]" ?s "U ''d/x.pdf''"]
  note C = model_input_bounds [of ?wb ?db ?wb ?db "U ''  ''" "[]" ?s "U ''d/x.pdf''"]
  have r1: "get_first_page_text ?w3 2 = get_first_page_text ?w2 2"
    using A tk by simp
  have r2: "get_first_page_text ?w2 2
      = concat (map (\<lambda>pg. case pg of Text (Some x) \<Rightarrow> x | _ \<Rightarrow> []) (take 2 (pages ?d2)))"
    using B nr by simp
  then have r2': "get_first_page_text ?w2 2 = U ''Title''" by simp
  have r3: "snd (get_title_from_gemini [] ?w2 (U ''Title'')) = [] @ [prompt_header @ take 2000 (U ''Title'')]"
    using B st(1) by blast
  have r4: "get_title_from_gemini [] ?wb (U ''  '') = (None, [])"
    using C st(2) by blast
  have r5: "(fst (process_file ?s ?wb (U ''d/x.pdf'')) = NoText \<or>
             fst (process_file ?s ?wb (U ''d/x.pdf'')) = NoTitle) \<and>
            snd (process_file ?s ?wb (U ''d/x.pdf'')) = ?s"
    using C ex st(2) unfolding bl by blast
  have r6: "process_file ?s ?wb (U ''d/x.pdf'') = (NoTitle, ?s)"
    by (simp add: pdf_defs path_defs string_defs Let_def)
  have "take 2000 (U ''Title'') = U ''Title''" by (simp add: U_def)
  with r1 r2' r3 r4 r5 r6 st tk show ?thesis by simp
qed

end
